theory Spec2Isabelle
  imports Main "HOL-Library.Sublist"
begin

section \<open>Data model\<close>

text \<open>
  \<^verbatim>\<open>types.ts\<close>: the enum \<^verbatim>\<open>AppStep\<close> and the interface \<^verbatim>\<open>CritiqueResult\<close>;
  \<^verbatim>\<open>services/geminiService.ts\<close>: the interface \<^verbatim>\<open>GeneratedImage\<close>.
  A thrown \<^verbatim>\<open>Error\<close> is represented by its \<^verbatim>\<open>message\<close>.
\<close>

datatype AppStep =
    INPUT | OPTIMIZING_PROMPT | GENERATING_IMAGE | CRITIQUING | REFINING
  | AWAITING_APPROVAL | GENERATING_VIDEO | COMPLETE | ERROR

datatype BackgroundMode = STUDIO | IMMERSIVE | GAMEPLAY

record CritiqueResult =
  score :: int
  feedback :: string
  suggestions :: string

record GeneratedImage =
  data :: string
  mimeType :: string

section \<open>JavaScript string helpers\<close>

text \<open>
  A JavaScript string is a sequence of UTF-16 code units. The text that comes back from
  the language model, and every prompt made of it, is kept as the list of its code units,
  so that \<^verbatim>\<open>String.prototype.trim\<close> strips what it strips in JavaScript: the white space
  and line terminators of ECMAScript (U+0009 to U+000D, U+0020, U+00A0, U+1680, U+2000 to
  U+200A, U+2028, U+2029, U+202F, U+205F, U+3000, U+FEFF). \<open>ascii\<close> gives the code
  units of an ASCII literal.
\<close>

type_synonym jsstring = "nat list"

definition ascii :: "string \<Rightarrow> jsstring" where
  "ascii s = map of_char s"

definition isWhiteSpace :: "nat \<Rightarrow> bool" where
  "isWhiteSpace u =
     (u \<in> set [9, 10, 11, 12, 13, 32, 160, 5760, 8232, 8233, 8239, 8287, 12288, 65279] \<or>
      (8192 \<le> u \<and> u \<le> 8202))"

definition trim :: "jsstring \<Rightarrow> jsstring" where
  "trim s = rev (dropWhile isWhiteSpace (rev (dropWhile isWhiteSpace s)))"

text \<open>
  Messages of errors and fixed literals are byte strings; \<^verbatim>\<open>toLowerCase\<close> on them maps the
  ASCII capitals, and \<^verbatim>\<open>includes\<close> looks for a contiguous occurrence.
\<close>

definition toLowerCase_char :: "char \<Rightarrow> char" where
  "toLowerCase_char c =
     (let n = (of_char c :: nat)
      in if 65 \<le> n \<and> n \<le> 90 then char_of (n + 32) else c)"

definition toLowerCase :: "string \<Rightarrow> string" where
  "toLowerCase s = map toLowerCase_char s"

fun includes_str :: "string \<Rightarrow> string \<Rightarrow> bool" where
  "includes_str [] sub = (sub = [])"
| "includes_str (c # cs) sub = (prefix sub (c # cs) \<or> includes_str cs sub)"

section \<open>Provider adapters (services/geminiService.ts)\<close>

text \<open>
  The provider is outside the program: each adapter takes what
  \<^verbatim>\<open>ai.models.generateContent\<close> did on that call as a parameter, \<open>Inl msg\<close> when the call
  threw and \<open>Inr response\<close> otherwise. \<^verbatim>\<open>response.text\<close> may be undefined (\<open>None\<close>).
\<close>

record TextResponse =
  response_text :: "jsstring option"

text \<open>
  \<^verbatim>\<open>optimizePrompt\<close> ends in \<^verbatim>\<open>return response.text?.trim() || ""\<close>. The six arguments only
  shape the request text; they are kept in the signature and do not reach the result.
\<close>

definition optimizePrompt ::
  "string \<Rightarrow> string \<Rightarrow> string \<Rightarrow> string \<Rightarrow> BackgroundMode \<Rightarrow> string option
     \<Rightarrow> string + TextResponse \<Rightarrow> string + jsstring" where
  "optimizePrompt name description style scenario backgroundMode userImageBase64 reply =
     (case reply of
        Inl err \<Rightarrow> Inl err
      | Inr response \<Rightarrow>
          (case response_text response of
             None \<Rightarrow> Inr []
           | Some t \<Rightarrow> if trim t = [] then Inr [] else Inr (trim t)))"

text \<open>
  \<^verbatim>\<open>refinePrompt\<close> ends in \<^verbatim>\<open>return response.text?.trim() || currentPrompt\<close>.
\<close>

definition refinePrompt ::
  "jsstring \<Rightarrow> CritiqueResult \<Rightarrow> string option \<Rightarrow> string + TextResponse
     \<Rightarrow> string + jsstring" where
  "refinePrompt currentPrompt critique userFeedback reply =
     (case reply of
        Inl err \<Rightarrow> Inl err
      | Inr response \<Rightarrow>
          (case response_text response of
             None \<Rightarrow> Inr currentPrompt
           | Some t \<Rightarrow> if trim t = [] then Inr currentPrompt else Inr (trim t)))"

text \<open>
  \<^verbatim>\<open>generateAvatarImage\<close>: the request it sends and what it makes of the response.
  A content part is a text or inline data; the reference image, when given and non-empty
  (JavaScript truthiness), is appended as a JPEG part.
\<close>

record InlineData =
  inline_mimeType :: "string option"
  inline_data :: string

datatype Part = TextPart jsstring | InlinePart InlineData

record ImageConfig =
  aspectRatio :: string
  imageSize :: string

record ImageRequest =
  model :: string
  contents :: "Part list"
  imageConfig :: ImageConfig

definition truthy :: "string option \<Rightarrow> bool" where
  "truthy s = (case s of None \<Rightarrow> False | Some t \<Rightarrow> t \<noteq> '''')"

definition generateAvatarImage_request :: "jsstring \<Rightarrow> string option \<Rightarrow> ImageRequest" where
  "generateAvatarImage_request optimizedPrompt referenceImageBase64 =
     \<lparr> model = ''gemini-3-pro-image-preview'',
       contents = [TextPart optimizedPrompt] @
         (if truthy referenceImageBase64
          then [InlinePart \<lparr> inline_mimeType = Some ''image/jpeg'',
                             inline_data = the referenceImageBase64 \<rparr>]
          else []),
       imageConfig = \<lparr> aspectRatio = ''16:9'', imageSize = ''2K'' \<rparr> \<rparr>"

text \<open>
  The repository has a second copy of \<^verbatim>\<open>generateAvatarImage\<close> (the later service file that
  also holds the voice functions), which differs in the image configuration only: its
  aspect ratio is \<^verbatim>\<open>1:1\<close>, commented \<^verbatim>\<open>Square for 3D model generation\<close>.
\<close>

definition generateAvatarImage_request_later :: "jsstring \<Rightarrow> string option \<Rightarrow> ImageRequest" where
  "generateAvatarImage_request_later optimizedPrompt referenceImageBase64 =
     \<lparr> model = ''gemini-3-pro-image-preview'',
       contents = [TextPart optimizedPrompt] @
         (if truthy referenceImageBase64
          then [InlinePart \<lparr> inline_mimeType = Some ''image/jpeg'',
                             inline_data = the referenceImageBase64 \<rparr>]
          else []),
       imageConfig = \<lparr> aspectRatio = ''1:1'', imageSize = ''2K'' \<rparr> \<rparr>"

text \<open>
  The response's parts are searched in order for the first one that has inline data;
  a missing mime type defaults to \<^verbatim>\<open>image/png\<close>; no such part throws.
\<close>

fun firstInlineData :: "Part list \<Rightarrow> string + GeneratedImage" where
  "firstInlineData [] = Inl ''No image data found in response''"
| "firstInlineData (TextPart t # ps) = firstInlineData ps"
| "firstInlineData (InlinePart d # ps) =
     Inr \<lparr> data = inline_data d,
           mimeType = (case inline_mimeType d of
                         None \<Rightarrow> ''image/png''
                       | Some m \<Rightarrow> if m = '''' then ''image/png'' else m) \<rparr>"

definition generateAvatarImage ::
  "jsstring \<Rightarrow> string option \<Rightarrow> (ImageRequest \<Rightarrow> string + Part list)
     \<Rightarrow> string + GeneratedImage" where
  "generateAvatarImage optimizedPrompt referenceImageBase64 provider =
     (case provider (generateAvatarImage_request optimizedPrompt referenceImageBase64) of
        Inl err \<Rightarrow> Inl err
      | Inr parts \<Rightarrow> firstInlineData parts)"

text \<open>
  \<^verbatim>\<open>critiqueGeneratedImage\<close>: \<open>Inl msg\<close> when the provider call or \<^verbatim>\<open>JSON.parse\<close> threw,
  \<open>Inr None\<close> when the response has no text (the function then throws
  \<^verbatim>\<open>No critique returned\<close>), \<open>Inr (Some c)\<close> when the text parsed to \<open>c\<close>.
\<close>

definition critiqueGeneratedImage ::
  "string \<Rightarrow> GeneratedImage \<Rightarrow> string + CritiqueResult option \<Rightarrow> string + CritiqueResult" where
  "critiqueGeneratedImage originalBrief generatedImage reply =
     (case reply of
        Inl err \<Rightarrow> Inl err
      | Inr None \<Rightarrow> Inl ''No critique returned''
      | Inr (Some c) \<Rightarrow> Inr c)"

section \<open>The refinement loop (executeGenerationLoop of the App component)\<close>

definition MAX_REFINEMENT_LOOPS :: nat where
  "MAX_REFINEMENT_LOOPS = 3"

definition QUALITY_THRESHOLD :: int where
  "QUALITY_THRESHOLD = 85"

record AvatarFormData =
  fd_name :: string
  fd_description :: string
  fd_style :: string
  fd_scenario :: string
  fd_userImage :: "string option"
  fd_backgroundMode :: BackgroundMode

text \<open>
  \<^verbatim>\<open>currentImage !== bestImage\<close> compares object identity, and every call of
  \<^verbatim>\<open>generateAvatarImage\<close> returns a new object: an image object is its identity
  (the number of image objects created before it) together with its content.
\<close>

datatype ImageObject = ImageObject (objId: nat) (content: GeneratedImage)

text \<open>
  The React state of the component that the function reads or writes, and the number of
  image objects created so far. The log and the video URL are left out: the function
  only writes them. \<open>videoSource\<close> is the argument of the call of
  \<^verbatim>\<open>startVideoGeneration\<close> that the current run has made, if any.
\<close>

record AppState =
  step :: AppStep
  generatedPrompt :: jsstring
  generatedImage :: "ImageObject option"
  critique :: "CritiqueResult option"
  loopCount :: nat
  error :: "string option"
  videoSource :: "ImageObject option"
  allocated :: nat

text \<open>
  The providers' replies during one run: to \<^verbatim>\<open>optimizePrompt\<close>, and to the \<open>n\<close>-th call
  (from 0) of \<^verbatim>\<open>refinePrompt\<close>, \<^verbatim>\<open>generateAvatarImage\<close> and \<^verbatim>\<open>critiqueGeneratedImage\<close>.
\<close>

record Providers =
  optimizeReply :: "string + TextResponse"
  refineReply :: "nat \<Rightarrow> string + TextResponse"
  imageReply :: "nat \<Rightarrow> ImageRequest \<Rightarrow> string + Part list"
  critiqueReply :: "nat \<Rightarrow> string + CritiqueResult option"

text \<open>
  The local variables of \<^verbatim>\<open>executeGenerationLoop\<close> with the React state \<open>ui\<close>, and a
  record of the calls made: \<open>generated\<close> lists the image objects returned by
  \<^verbatim>\<open>generateAvatarImage\<close> in this run, \<open>critiqued\<close> the image and the score of each
  critique, \<open>refineCalls\<close> counts the calls of \<^verbatim>\<open>refinePrompt\<close>.
\<close>

record LoopState =
  ui :: AppState
  currentPrompt :: jsstring
  currentImage :: ImageObject
  loops :: nat
  bestImage :: ImageObject
  bestScore :: int
  isSatisfied :: bool
  generated :: "ImageObject list"
  critiqued :: "(ImageObject \<times> int) list"
  refineCalls :: nat

definition setStep :: "AppStep \<Rightarrow> LoopState \<Rightarrow> LoopState" where
  "setStep st s = s\<lparr> ui := (ui s)\<lparr> step := st \<rparr> \<rparr>"

definition setGeneratedPrompt :: "jsstring \<Rightarrow> LoopState \<Rightarrow> LoopState" where
  "setGeneratedPrompt p s = s\<lparr> ui := (ui s)\<lparr> generatedPrompt := p \<rparr> \<rparr>"

definition setGeneratedImage :: "ImageObject \<Rightarrow> LoopState \<Rightarrow> LoopState" where
  "setGeneratedImage img s = s\<lparr> ui := (ui s)\<lparr> generatedImage := Some img \<rparr> \<rparr>"

definition setCritique :: "CritiqueResult \<Rightarrow> LoopState \<Rightarrow> LoopState" where
  "setCritique c s = s\<lparr> ui := (ui s)\<lparr> critique := Some c \<rparr> \<rparr>"

definition setLoopCount :: "nat \<Rightarrow> LoopState \<Rightarrow> LoopState" where
  "setLoopCount n s = s\<lparr> ui := (ui s)\<lparr> loopCount := n \<rparr> \<rparr>"

text \<open>
  One call of \<^verbatim>\<open>generateAvatarImage\<close> from the loop: the object it returns is new.
\<close>

definition newImage ::
  "AvatarFormData \<Rightarrow> Providers \<Rightarrow> LoopState \<Rightarrow> string + ImageObject" where
  "newImage formData env s =
     (case generateAvatarImage (currentPrompt s) (fd_userImage formData)
             (imageReply env (length (generated s))) of
        Inl err \<Rightarrow> Inl err
      | Inr img \<Rightarrow> Inr (ImageObject (allocated (ui s)) img))"

definition recordImage :: "ImageObject \<Rightarrow> LoopState \<Rightarrow> LoopState" where
  "recordImage img s =
     s\<lparr> generated := generated s @ [img],
        ui := (ui s)\<lparr> allocated := Suc (allocated (ui s)) \<rparr> \<rparr>"

text \<open>
  The body of \<^verbatim>\<open>while (loops < MAX_REFINEMENT_LOOPS && !isSatisfied)\<close>, one iteration.
  A throw carries the message and the React state at that point.
\<close>

definition trackBest :: "CritiqueResult \<Rightarrow> LoopState \<Rightarrow> LoopState" where
  "trackBest critiqueResult s =
     (if score critiqueResult > bestScore s
      then s\<lparr> bestScore := score critiqueResult, bestImage := currentImage s \<rparr>
      else s)"

definition refineAndRegenerate ::
  "AvatarFormData \<Rightarrow> Providers \<Rightarrow> CritiqueResult \<Rightarrow> LoopState
     \<Rightarrow> (string \<times> AppState) + LoopState" where
  "refineAndRegenerate formData env critiqueResult s =
     (let s1 = setStep REFINING s in
      case refinePrompt (currentPrompt s1) critiqueResult None (refineReply env (refineCalls s1)) of
        Inl err \<Rightarrow> Inl (err, ui s1)
      | Inr p \<Rightarrow>
          (let s2 = setStep GENERATING_IMAGE
                      (setGeneratedPrompt p
                         (s1\<lparr> currentPrompt := p, refineCalls := Suc (refineCalls s1) \<rparr>)) in
           case newImage formData env s2 of
             Inl err \<Rightarrow> Inl (err, ui s2)
           | Inr nextImage \<Rightarrow>
               (let s3 = setGeneratedImage nextImage
                           ((recordImage nextImage s2)\<lparr> currentImage := nextImage \<rparr>) in
                Inr (setLoopCount (Suc (loops s3)) (s3\<lparr> loops := Suc (loops s3) \<rparr>)))))"

definition loopBody ::
  "AvatarFormData \<Rightarrow> Providers \<Rightarrow> LoopState \<Rightarrow> (string \<times> AppState) + LoopState" where
  "loopBody formData env s =
     (let s1 = setStep CRITIQUING s in
      case critiqueGeneratedImage (fd_description formData) (content (currentImage s1))
             (critiqueReply env (length (critiqued s1))) of
        Inl err \<Rightarrow> Inl (err, ui s1)
      | Inr critiqueResult \<Rightarrow>
          (let s2 = trackBest critiqueResult
                      (setCritique critiqueResult
                         (s1\<lparr> critiqued :=
                                 critiqued s1 @ [(currentImage s1, score critiqueResult)] \<rparr>)) in
           if score critiqueResult \<ge> QUALITY_THRESHOLD
           then Inr (s2\<lparr> isSatisfied := True \<rparr>)
           else refineAndRegenerate formData env critiqueResult s2))"

definition loopGuard :: "LoopState \<Rightarrow> bool" where
  "loopGuard s = (loops s < MAX_REFINEMENT_LOOPS \<and> \<not> isSatisfied s)"

definition loopMeasure :: "LoopState \<Rightarrow> nat" where
  "loopMeasure s = 2 * (MAX_REFINEMENT_LOOPS - loops s) + (if isSatisfied s then 0 else 1)"

function scoringLoop ::
  "AvatarFormData \<Rightarrow> Providers \<Rightarrow> LoopState \<Rightarrow> (string \<times> AppState) + LoopState" where
  "scoringLoop formData env s =
     (if loopGuard s
      then (case loopBody formData env s of
              Inl thrown \<Rightarrow> Inl thrown
            | Inr s' \<Rightarrow> scoringLoop formData env s')
      else Inr s)"
  by pat_completeness auto
termination
proof (relation "measure (\<lambda>(formData, env, s). loopMeasure s)")
  show "wf (measure (\<lambda>(formData, env, s). loopMeasure s))"
    by simp
next
  fix formData env s s'
  assume guard: "loopGuard s" and body: "loopBody formData env s = Inr s'"
  let ?s1 = "setStep CRITIQUING s"
  from body obtain c where c: "critiqueGeneratedImage (fd_description formData)
      (content (currentImage ?s1)) (critiqueReply env (length (critiqued ?s1))) = Inr c"
    by (auto simp: loopBody_def Let_def split: sum.splits)
  let ?s2 = "trackBest c (setCritique c
      (?s1\<lparr> critiqued := critiqued ?s1 @ [(currentImage ?s1, score c)] \<rparr>))"
  have l2: "loops ?s2 = loops s" and sat2: "isSatisfied ?s2 = isSatisfied s"
    by (simp_all add: trackBest_def setCritique_def setStep_def)
  have "loopMeasure s' < loopMeasure s"
  proof (cases "score c \<ge> QUALITY_THRESHOLD")
    case True
    with body c have "s' = ?s2\<lparr> isSatisfied := True \<rparr>"
      by (simp add: loopBody_def Let_def)
    with guard l2 show ?thesis
      by (simp add: loopMeasure_def loopGuard_def)
  next
    case False
    with body c have "refineAndRegenerate formData env c ?s2 = Inr s'"
      by (simp add: loopBody_def Let_def)
    then have "loops s' = Suc (loops ?s2) \<and> isSatisfied s' = isSatisfied ?s2"
      by (auto simp: refineAndRegenerate_def Let_def setStep_def setGeneratedPrompt_def
            setGeneratedImage_def setLoopCount_def recordImage_def split: sum.splits)
    with l2 sat2 have "loops s' = Suc (loops s)" and "isSatisfied s' = isSatisfied s"
      by simp_all
    with guard show ?thesis
      by (auto simp add: loopMeasure_def loopGuard_def)
  qed
  then show "((formData, env, s'), formData, env, s) \<in> measure (\<lambda>(formData, env, s). loopMeasure s)"
    by simp
qed

declare scoringLoop.simps [simp del]

text \<open>
  The state after \<open>n\<close> iterations of the loop from \<open>s\<close>: \<open>None\<close> when the loop has
  stopped or thrown before.
\<close>

fun afterIterations ::
  "AvatarFormData \<Rightarrow> Providers \<Rightarrow> nat \<Rightarrow> LoopState \<Rightarrow> LoopState option" where
  "afterIterations formData env 0 s = Some s"
| "afterIterations formData env (Suc n) s =
     (if loopGuard s
      then (case loopBody formData env s of
              Inl thrown \<Rightarrow> None
            | Inr s' \<Rightarrow> afterIterations formData env n s')
      else None)"

text \<open>
  Before the loop. The function first resets part of the React state; then it
  establishes the prompt: \<^verbatim>\<open>initialPrompt || ''\<close>, optimised when empty, refined with
  the user's feedback (through a mock critique of score 0) when there is feedback. The
  result is the prompt and the number of \<^verbatim>\<open>refinePrompt\<close> calls made.
\<close>

definition resetState :: "AppState \<Rightarrow> AppState" where
  "resetState app = app\<lparr> error := None, loopCount := 0, critique := None, videoSource := None \<rparr>"

definition establishPrompt ::
  "AvatarFormData \<Rightarrow> Providers \<Rightarrow> jsstring option \<Rightarrow> string option \<Rightarrow> AppState
     \<Rightarrow> (string \<times> AppState) + (jsstring \<times> nat \<times> AppState)" where
  "establishPrompt formData env initialPrompt initialFeedback app =
     (let currentPrompt = (case initialPrompt of None \<Rightarrow> [] | Some p \<Rightarrow> p) in
      if currentPrompt = [] then
        (let app1 = app\<lparr> step := OPTIMIZING_PROMPT \<rparr> in
         case optimizePrompt (fd_name formData) (fd_description formData) (fd_style formData)
                (fd_scenario formData) (fd_backgroundMode formData) (fd_userImage formData)
                (optimizeReply env) of
           Inl err \<Rightarrow> Inl (err, app1)
         | Inr p \<Rightarrow> Inr (p, 0, app1\<lparr> generatedPrompt := p \<rparr>))
      else if truthy initialFeedback then
        (let app1 = app\<lparr> step := REFINING \<rparr>;
             mockCritique = \<lparr> score = 0, feedback = ''User Feedback Loop'',
                              suggestions = the initialFeedback \<rparr> in
         case refinePrompt currentPrompt mockCritique initialFeedback (refineReply env 0) of
           Inl err \<Rightarrow> Inl (err, app1)
         | Inr p \<Rightarrow> Inr (p, 1, app1\<lparr> generatedPrompt := p \<rparr>))
      else Inr (currentPrompt, 0, app))"

text \<open>
  The initial generation (V1) and the initial values of the loop's variables.
\<close>

definition initialGeneration ::
  "AvatarFormData \<Rightarrow> Providers \<Rightarrow> jsstring \<times> nat \<times> AppState
     \<Rightarrow> (string \<times> AppState) + LoopState" where
  "initialGeneration formData env established =
     (case established of (prompt, refines, app) \<Rightarrow>
        (let app1 = app\<lparr> step := GENERATING_IMAGE \<rparr> in
         case generateAvatarImage prompt (fd_userImage formData) (imageReply env 0) of
           Inl err \<Rightarrow> Inl (err, app1)
         | Inr img \<Rightarrow>
             (let v1 = ImageObject (allocated app1) img in
              Inr \<lparr> ui = app1\<lparr> generatedImage := Some v1, allocated := Suc (allocated app1) \<rparr>,
                    currentPrompt = prompt,
                    currentImage = v1,
                    loops = 0,
                    bestImage = v1,
                    bestScore = 0,
                    isSatisfied = False,
                    generated = [v1],
                    critiqued = [],
                    refineCalls = refines \<rparr>)))"

text \<open>
  After the loop: \<^verbatim>\<open>if (currentImage !== bestImage)\<close> restores the best image; then an
  unsatisfied run stops at \<^verbatim>\<open>AWAITING_APPROVAL\<close>, and a satisfied one calls
  \<^verbatim>\<open>startVideoGeneration(currentImage)\<close>, whose first statement sets the step and whose
  argument is kept in \<open>videoSource\<close>.
\<close>

definition restoreBest :: "LoopState \<Rightarrow> LoopState" where
  "restoreBest s =
     (if objId (currentImage s) \<noteq> objId (bestImage s)
      then (setGeneratedImage (bestImage s) s)\<lparr> currentImage := bestImage s \<rparr>
      else s)"

definition finish :: "LoopState \<Rightarrow> LoopState" where
  "finish s =
     (if \<not> isSatisfied s then setStep AWAITING_APPROVAL s
      else s\<lparr> ui := (ui s)\<lparr> step := GENERATING_VIDEO, videoSource := Some (currentImage s) \<rparr> \<rparr>)"

definition loopStart ::
  "AvatarFormData \<Rightarrow> Providers \<Rightarrow> jsstring option \<Rightarrow> string option \<Rightarrow> AppState
     \<Rightarrow> (string \<times> AppState) + LoopState" where
  "loopStart formData env initialPrompt initialFeedback app =
     (case establishPrompt formData env initialPrompt initialFeedback (resetState app) of
        Inl thrown \<Rightarrow> Inl thrown
      | Inr established \<Rightarrow> initialGeneration formData env established)"

definition tryBody ::
  "AvatarFormData \<Rightarrow> Providers \<Rightarrow> jsstring option \<Rightarrow> string option \<Rightarrow> AppState
     \<Rightarrow> (string \<times> AppState) + LoopState" where
  "tryBody formData env initialPrompt initialFeedback app =
     (case loopStart formData env initialPrompt initialFeedback app of
        Inl thrown \<Rightarrow> Inl thrown
      | Inr s0 \<Rightarrow>
          (case scoringLoop formData env s0 of
             Inl thrown \<Rightarrow> Inl thrown
           | Inr s \<Rightarrow> Inr (finish (restoreBest s))))"

text \<open>
  The whole function: \<open>Inl\<close> is the React state left by the \<^verbatim>\<open>catch\<close> block, \<open>Inr\<close> the
  final local variables and React state of a run in which nothing threw.
\<close>

definition executeGenerationLoop ::
  "AvatarFormData \<Rightarrow> Providers \<Rightarrow> jsstring option \<Rightarrow> string option \<Rightarrow> AppState
     \<Rightarrow> AppState + LoopState" where
  "executeGenerationLoop formData env initialPrompt initialFeedback app =
     (case tryBody formData env initialPrompt initialFeedback app of
        Inl (msg, app') \<Rightarrow>
          Inl (app'\<lparr> error := Some (if msg = '''' then ''An unexpected error occurred'' else msg),
                    step := ERROR \<rparr>)
      | Inr s \<Rightarrow> Inr s)"

text \<open>
  A scripted environment for examples: the critic answers its \<open>n\<close>-th call with the
  \<open>n\<close>-th score of a list (and throws when the list is used up), the other providers
  always answer.
\<close>

definition scriptedCritique :: "int \<Rightarrow> CritiqueResult" where
  "scriptedCritique n = \<lparr> score = n, feedback = ''feedback'', suggestions = ''more detail'' \<rparr>"

definition scriptedCritic :: "int list \<Rightarrow> nat \<Rightarrow> string + CritiqueResult option" where
  "scriptedCritic scores n =
     (if n < length scores
      then Inr (Some (scriptedCritique (scores ! n)))
      else Inl ''no further critique scripted'')"

definition scriptedProviders :: "int list \<Rightarrow> Providers" where
  "scriptedProviders scores =
     \<lparr> optimizeReply = Inr \<lparr> response_text = Some (ascii ''a turnaround sheet'') \<rparr>,
       refineReply = (\<lambda>n. Inr \<lparr> response_text = Some (ascii ''a better turnaround sheet'') \<rparr>),
       imageReply = (\<lambda>n request.
          Inr [InlinePart \<lparr> inline_mimeType = Some ''image/png'', inline_data = ''pixels'' \<rparr>]),
       critiqueReply = scriptedCritic scores \<rparr>"

definition novaBrief :: AvatarFormData where
  "novaBrief =
     \<lparr> fd_name = ''Nova'', fd_description = ''hacker'', fd_style = ''anime'',
       fd_scenario = ''city'', fd_userImage = None, fd_backgroundMode = STUDIO \<rparr>"

definition freshApp :: AppState where
  "freshApp =
     \<lparr> step = INPUT, generatedPrompt = [], generatedImage = None, critique = None,
       loopCount = 0, error = None, videoSource = None, allocated = 0 \<rparr>"

definition png :: GeneratedImage where
  "png = \<lparr> data = ''pixels'', mimeType = ''image/png'' \<rparr>"

definition img :: "nat \<Rightarrow> ImageObject" where
  "img n = ImageObject n png"

text \<open>
  The final states of three runs from \<open>freshApp\<close> with the scripted providers, for the
  critic's scores 60, 72, 85; 40, 60, 60; and 80, 95, 70; and, for the second, the states
  in which the loop starts and ends.
\<close>

definition run_60_72_85 :: LoopState where
  "run_60_72_85 =
     \<lparr> ui = \<lparr> step = GENERATING_VIDEO, generatedPrompt = ascii ''a better turnaround sheet'',
              generatedImage = Some (img 2), critique = Some (scriptedCritique 85),
              loopCount = 2, error = None, videoSource = Some (img 2), allocated = 3 \<rparr>,
       currentPrompt = ascii ''a better turnaround sheet'',
       currentImage = img 2, loops = 2, bestImage = img 2, bestScore = 85,
       isSatisfied = True,
       generated = [img 0, img 1, img 2],
       critiqued = [(img 0, 60), (img 1, 72), (img 2, 85)],
       refineCalls = 2 \<rparr>"


definition run_80_95_70 :: LoopState where
  "run_80_95_70 =
     \<lparr> ui = \<lparr> step = GENERATING_VIDEO, generatedPrompt = ascii ''a better turnaround sheet'',
              generatedImage = Some (img 1), critique = Some (scriptedCritique 95),
              loopCount = 1, error = None, videoSource = Some (img 1), allocated = 2 \<rparr>,
       currentPrompt = ascii ''a better turnaround sheet'',
       currentImage = img 1, loops = 1, bestImage = img 1, bestScore = 95,
       isSatisfied = True,
       generated = [img 0, img 1],
       critiqued = [(img 0, 80), (img 1, 95)],
       refineCalls = 1 \<rparr>"

definition loopStart_40_60_60 :: LoopState where
  "loopStart_40_60_60 =
     \<lparr> ui = \<lparr> step = GENERATING_IMAGE, generatedPrompt = ascii ''a turnaround sheet'',
              generatedImage = Some (img 0), critique = None,
              loopCount = 0, error = None, videoSource = None, allocated = 1 \<rparr>,
       currentPrompt = ascii ''a turnaround sheet'',
       currentImage = img 0, loops = 0, bestImage = img 0, bestScore = 0,
       isSatisfied = False,
       generated = [img 0],
       critiqued = [],
       refineCalls = 0 \<rparr>"

definition loopEnd_40_60_60 :: LoopState where
  "loopEnd_40_60_60 =
     \<lparr> ui = \<lparr> step = GENERATING_IMAGE, generatedPrompt = ascii ''a better turnaround sheet'',
              generatedImage = Some (img 3), critique = Some (scriptedCritique 60),
              loopCount = 3, error = None, videoSource = None, allocated = 4 \<rparr>,
       currentPrompt = ascii ''a better turnaround sheet'',
       currentImage = img 3, loops = 3, bestImage = img 1, bestScore = 60,
       isSatisfied = False,
       generated = [img 0, img 1, img 2, img 3],
       critiqued = [(img 0, 40), (img 1, 60), (img 2, 60)],
       refineCalls = 3 \<rparr>"

section \<open>Video generation with retry (generateAvatarVideo)\<close>

text \<open>
  What is thrown is represented by its \<^verbatim>\<open>message\<close>, \<open>None\<close> when the thrown value has none
  (the \<^verbatim>\<open>catch\<close> block reads \<^verbatim>\<open>err.message?.toLowerCase()\<close>).
\<close>

type_synonym thrown = "string option"

text \<open>
  A snapshot of the provider's long-running operation, as far as the function reads it:
  \<^verbatim>\<open>done\<close>, \<^verbatim>\<open>metadata?.state\<close>, \<^verbatim>\<open>error\<close> (\<open>None\<close> when there is no error object,
  \<open>Some None\<close> for an error object without a message, \<open>Some (Some m)\<close> for one with the
  message \<open>m\<close>) and \<^verbatim>\<open>response?.generatedVideos?.[0]?.video?.uri\<close>.
\<close>

record VideoOperation =
  op_done :: bool
  op_state :: "string option"
  op_error :: "string option option"
  op_uri :: "string option"

text \<open>
  What the provider does during one attempt: the result of \<^verbatim>\<open>generateVideos\<close> and of the
  successive calls of \<^verbatim>\<open>getVideosOperation\<close>.
\<close>

record AttemptScript =
  started :: "thrown + VideoOperation"
  polled :: "(thrown + VideoOperation) list"

text \<open>
  The observable effects: the \<^verbatim>\<open>console.log\<close> at the start of an attempt and every call
  of \<^verbatim>\<open>delay(ms)\<close>, in order.
\<close>

datatype Effect = AttemptLog nat | Delay nat

definition MAX_RETRIES :: nat where
  "MAX_RETRIES = 3"

definition videoPrompt :: "BackgroundMode \<Rightarrow> string \<Rightarrow> string" where
  "videoPrompt backgroundMode scenario =
     (if backgroundMode = STUDIO then
        ''Cinematic 360-degree turntable shot of the character. Smooth camera rotation around the subject. Neutral studio lighting. 4k.''
      else if backgroundMode = IMMERSIVE then
        ''Cinematic 360-degree camera orbit around the character in a '' @ scenario @
        '' environment. Detailed background, atmospheric lighting. 4k.''
      else
        ''Video game character showcase. 360-degree rotating camera view of the character in a ''
        @ scenario @ ''. Third-person perspective, game engine style.'')"

text \<open>
  \<^verbatim>\<open>while (!operation.done)\<close>: wait 5 s, fetch the operation, throw when its state is
  \<^verbatim>\<open>FAILED\<close>. The result is \<open>None\<close> when the scripted replies are used up before the
  operation is done (the function is then still polling); the effects are returned in
  both cases.
\<close>

definition failureMsg :: "VideoOperation \<Rightarrow> string" where
  "failureMsg operation =
     (case op_error operation of
        None \<Rightarrow> ''Unknown error''
      | Some None \<Rightarrow> ''Unknown error''
      | Some (Some m) \<Rightarrow> if m = '''' then ''Unknown error'' else m)"

fun pollOperation ::
  "VideoOperation \<Rightarrow> (thrown + VideoOperation) list \<Rightarrow> (thrown + VideoOperation) option \<times> Effect list" where
  "pollOperation operation replies =
     (if op_done operation then (Some (Inr operation), [])
      else (case replies of
              [] \<Rightarrow> (None, [Delay 5000])
            | r # rest \<Rightarrow>
                (case r of
                   Inl err \<Rightarrow> (Some (Inl err), [Delay 5000])
                 | Inr operation' \<Rightarrow>
                     if op_state operation' = Some ''FAILED''
                     then (Some (Inl (Some (''Veo State FAILED: '' @ failureMsg operation'))),
                           [Delay 5000])
                     else (case pollOperation operation' rest of
                             (res, effects) \<Rightarrow> (res, Delay 5000 # effects)))))"

text \<open>
  The body of the \<^verbatim>\<open>try\<close> block: \<open>Inl\<close> what it throws, \<open>Inr\<close> the download link.
\<close>

definition videoAttempt :: "AttemptScript \<Rightarrow> (thrown + string) option \<times> Effect list" where
  "videoAttempt script =
     (case started script of
        Inl err \<Rightarrow> (Some (Inl err), [])
      | Inr operation \<Rightarrow>
          (case pollOperation operation (polled script) of
             (None, effects) \<Rightarrow> (None, effects)
           | (Some (Inl err), effects) \<Rightarrow> (Some (Inl err), effects)
           | (Some (Inr final), effects) \<Rightarrow>
               (case op_error final of
                  Some None \<Rightarrow>
                    (Some (Inl (Some ''Veo Operation Error: undefined'')), effects)
                | Some (Some m) \<Rightarrow>
                    (Some (Inl (Some (''Veo Operation Error: '' @ m))), effects)
                | None \<Rightarrow>
                    (case op_uri final of
                       None \<Rightarrow> (Some (Inl (Some ''Video URI not found in response'')), effects)
                     | Some downloadLink \<Rightarrow>
                         if downloadLink = ''''
                         then (Some (Inl (Some ''Video URI not found in response'')), effects)
                         else (Some (Inr downloadLink), effects)))))"

text \<open>
  The classification in the \<^verbatim>\<open>catch\<close> block: the lower-cased message includes
  \<^verbatim>\<open>internal\<close> or \<^verbatim>\<open>server\<close>.
\<close>

definition isInternalError :: "thrown \<Rightarrow> bool" where
  "isInternalError err =
     (case err of
        None \<Rightarrow> False
      | Some message \<Rightarrow>
          includes_str (toLowerCase message) ''internal'' \<or>
          includes_str (toLowerCase message) ''server'')"

text \<open>
  After the loop: \<^verbatim>\<open>throw lastError || new Error(...)\<close>.
\<close>

definition throwLast :: "thrown option \<Rightarrow> thrown" where
  "throwLast lastError =
     (case lastError of
        None \<Rightarrow> Some ''Video generation failed after multiple attempts.''
      | Some err \<Rightarrow> err)"

text \<open>
  The retry loop from a given attempt number on; \<open>script n\<close> is what the provider does
  during attempt \<open>n\<close>. The result is \<open>None\<close> when an attempt never finishes polling.
\<close>

function retryFrom ::
  "(nat \<Rightarrow> AttemptScript) \<Rightarrow> nat \<Rightarrow> thrown option
     \<Rightarrow> (thrown + string) option \<times> Effect list" where
  "retryFrom script attempt lastError =
     (if attempt \<le> MAX_RETRIES then
        (case videoAttempt (script attempt) of
           (None, effects) \<Rightarrow> (None, AttemptLog attempt # effects)
         | (Some (Inr downloadLink), effects) \<Rightarrow>
             (Some (Inr downloadLink), AttemptLog attempt # effects)
         | (Some (Inl err), effects) \<Rightarrow>
             if attempt < MAX_RETRIES \<and> isInternalError err
             then (case retryFrom script (Suc attempt) (Some err) of
                     (res, later) \<Rightarrow>
                       (res, AttemptLog attempt # effects @ [Delay 4000] @ later))
             else (Some (Inl (throwLast (Some err))), AttemptLog attempt # effects))
      else (Some (Inl (throwLast lastError)), []))"
  by pat_completeness auto
termination
  by (relation "measure (\<lambda>(script, attempt, lastError). Suc MAX_RETRIES - attempt)") auto

declare retryFrom.simps [simp del]

definition generateAvatarVideo ::
  "GeneratedImage \<Rightarrow> string \<Rightarrow> BackgroundMode \<Rightarrow> string \<Rightarrow> (nat \<Rightarrow> AttemptScript)
     \<Rightarrow> (thrown + string) option \<times> Effect list" where
  "generateAvatarVideo referenceImage characterName backgroundMode scenario script =
     retryFrom script 1 None"

text \<open>
  Scripts for examples: an attempt whose \<^verbatim>\<open>generateVideos\<close> call throws a message, and one
  whose operation is done after one poll and carries a link.
\<close>

definition throwingAttempt :: "string \<Rightarrow> AttemptScript" where
  "throwingAttempt message = \<lparr> started = Inl (Some message), polled = [] \<rparr>"

definition succeedingAttempt :: "string \<Rightarrow> AttemptScript" where
  "succeedingAttempt link =
     \<lparr> started = Inr \<lparr> op_done = False, op_state = Some ''RUNNING'', op_error = None,
                        op_uri = None \<rparr>,
       polled = [Inr \<lparr> op_done = True, op_state = Some ''SUCCEEDED'', op_error = None,
                       op_uri = Some link \<rparr>] \<rparr>"

definition flakyThenFine :: "nat \<Rightarrow> AttemptScript" where
  "flakyThenFine attempt =
     (if attempt = 1 then throwingAttempt ''500 Internal error encountered''
      else if attempt = 2 then throwingAttempt ''The SERVER is overloaded''
      else succeedingAttempt ''https://video.example/clip'')"

definition alwaysUnsafe :: "nat \<Rightarrow> AttemptScript" where
  "alwaysUnsafe attempt = throwingAttempt ''Prompt blocked by safety filter''"

definition alwaysInternal :: "nat \<Rightarrow> AttemptScript" where
  "alwaysInternal attempt =
     (if attempt = 3 then throwingAttempt ''internal error, third time''
      else throwingAttempt ''internal error'')"

section \<open>The task poller (waitForTaskCompletion of services/tripoService.ts)\<close>

datatype TaskStatus = Queued | Running | Success | Failed | Banned | Expired | Cancelled | Unknown


record TaskOutput =
  out_model :: "string option"
  out_base_model :: "string option"
  out_pbr_model :: "string option"
  out_rendered_image :: "string option"

record TaskData =
  task_id :: string
  task_type :: string
  status :: TaskStatus
  task_output :: TaskOutput
  progress :: int
  create_time :: int

text \<open>
  One call of \<^verbatim>\<open>getTaskStatus\<close> as the poller sees it: what it returned or threw, and the
  milliseconds that passed on the clock (\<^verbatim>\<open>Date.now()\<close>) between the loop's test before
  the call and the end of the call. \<^verbatim>\<open>delay(pollInterval)\<close> then takes
  \<open>pollInterval\<close> milliseconds.
\<close>

record StatusCall =
  reply :: "string + TaskData"
  took :: nat













text \<open>
  Providers that always answer: no call throws, every image response carries an image
  and every critique response parses.
\<close>

definition answering :: "Providers \<Rightarrow> bool" where
  "answering env \<longleftrightarrow>
     (\<exists>r. optimizeReply env = Inr r) \<and>
     (\<forall>n. \<exists>r. refineReply env n = Inr r) \<and>
     (\<forall>n request. \<exists>parts image. imageReply env n request = Inr parts \<and>
                                 firstInlineData parts = Inr image) \<and>
     (\<forall>n. \<exists>c. critiqueReply env n = Inr (Some c))"

text \<open>
  What ties a run to its providers: the score carried by the critic's \<open>n\<close>-th reply, and
  the image that the \<open>n\<close>-th call of \<^verbatim>\<open>generateAvatarImage\<close> returns for a prompt.
\<close>

definition replyScore :: "Providers \<Rightarrow> nat \<Rightarrow> int option" where
  "replyScore env n =
     (case critiqueReply env n of
        Inl err \<Rightarrow> None
      | Inr None \<Rightarrow> None
      | Inr (Some c) \<Rightarrow> Some (score c))"

definition replyImage ::
  "AvatarFormData \<Rightarrow> Providers \<Rightarrow> nat \<Rightarrow> jsstring \<Rightarrow> GeneratedImage option" where
  "replyImage formData env n prompt =
     (case generateAvatarImage prompt (fd_userImage formData) (imageReply env n) of
        Inl err \<Rightarrow> None
      | Inr pic \<Rightarrow> Some pic)"

definition imagesInv :: "AvatarFormData \<Rightarrow> Providers \<Rightarrow> LoopState \<Rightarrow> bool" where
  "imagesInv formData env s \<longleftrightarrow>
     (\<forall>j < length (generated s).
        \<exists>prompt. replyImage formData env j prompt = Some (content (generated s ! j)))"

text \<open>
  Providers for examples whose \<open>n\<close>-th image differs from the others: its data is
  \<open>n + 1\<close> times the letter x. The final state of the run with the critic's scores
  40, 60, 60.
\<close>

definition tagged :: "nat \<Rightarrow> GeneratedImage" where
  "tagged n = \<lparr> data = replicate (Suc n) (CHR ''x''), mimeType = ''image/png'' \<rparr>"

definition taggedProviders :: "int list \<Rightarrow> Providers" where
  "taggedProviders scores =
     \<lparr> optimizeReply = Inr \<lparr> response_text = Some (ascii ''a turnaround sheet'') \<rparr>,
       refineReply = (\<lambda>n. Inr \<lparr> response_text = Some (ascii ''a better turnaround sheet'') \<rparr>),
       imageReply = (\<lambda>n request.
          Inr [InlinePart \<lparr> inline_mimeType = Some ''image/png'',
                            inline_data = replicate (Suc n) (CHR ''x'') \<rparr>]),
       critiqueReply = scriptedCritic scores \<rparr>"

definition tagged_40_60_60 :: LoopState where
  "tagged_40_60_60 =
     \<lparr> ui = \<lparr> step = AWAITING_APPROVAL,
              generatedPrompt = ascii ''a better turnaround sheet'',
              generatedImage = Some (ImageObject 1 (tagged 1)),
              critique = Some (scriptedCritique 60),
              loopCount = 3, error = None, videoSource = None, allocated = 4 \<rparr>,
       currentPrompt = ascii ''a better turnaround sheet'',
       currentImage = ImageObject 1 (tagged 1), loops = 3,
       bestImage = ImageObject 1 (tagged 1), bestScore = 60,
       isSatisfied = False,
       generated = [ImageObject 0 (tagged 0), ImageObject 1 (tagged 1),
                    ImageObject 2 (tagged 2), ImageObject 3 (tagged 3)],
       critiqued = [(ImageObject 0 (tagged 0), 40), (ImageObject 1 (tagged 1), 60),
                    (ImageObject 2 (tagged 2), 60)],
       refineCalls = 3 \<rparr>"

section \<open>The loop's invariant\<close>

text \<open>
  What the best-tracking computes over the critiques made so far: starting from an
  incumbent, a later critique replaces it only with a strictly greater score.
\<close>

fun track :: "ImageObject \<times> int \<Rightarrow> (ImageObject \<times> int) list \<Rightarrow> ImageObject \<times> int" where
  "track best [] = best"
| "track best (x # xs) = track (if snd x > snd best then x else best) xs"

text \<open>
  The invariant of the loop, for a run whose first image object has identity \<open>a0\<close>.
\<close>

definition loopInv :: "Providers \<Rightarrow> nat \<Rightarrow> LoopState \<Rightarrow> bool" where
  "loopInv env a0 s \<longleftrightarrow>
     length (generated s) = Suc (loops s) \<and>
     loops s \<le> MAX_REFINEMENT_LOOPS \<and>
     currentImage s = last (generated s) \<and>
     map objId (generated s) = [a0 ..< a0 + length (generated s)] \<and>
     allocated (ui s) = a0 + length (generated s) \<and>
     length (critiqued s) = loops s + (if isSatisfied s then 1 else 0) \<and>
     map fst (critiqued s) = take (length (critiqued s)) (generated s) \<and>
     (\<forall>j < loops s. snd (critiqued s ! j) < QUALITY_THRESHOLD) \<and>
     (isSatisfied s \<longrightarrow> snd (last (critiqued s)) \<ge> QUALITY_THRESHOLD) \<and>
     (isSatisfied s \<longrightarrow> loops s < MAX_REFINEMENT_LOOPS) \<and>
     (bestImage s, bestScore s) = track (hd (generated s), 0) (critiqued s) \<and>
     generatedImage (ui s) = Some (currentImage s) \<and>
     loopCount (ui s) = loops s \<and>
     (\<forall>j < length (critiqued s).
        \<exists>c. critiqueReply env j = Inr (Some c) \<and> score c = snd (critiqued s ! j))"

section \<open>Lemmas about one iteration and about the loop\<close>

lemma refineAndRegenerate_Inr:
  assumes "refineAndRegenerate formData env c s = Inr s'"
  shows "isSatisfied s' = isSatisfied s \<and> loops s' = Suc (loops s) \<and>
         critiqued s' = critiqued s \<and> bestScore s' = bestScore s \<and> bestImage s' = bestImage s \<and>
         (\<exists>img. generated s' = generated s @ [ImageObject (allocated (ui s)) img] \<and>
                currentImage s' = ImageObject (allocated (ui s)) img) \<and>
         allocated (ui s') = Suc (allocated (ui s)) \<and>
         generatedImage (ui s') = Some (currentImage s') \<and>
         loopCount (ui s') = Suc (loops s) \<and>
         refineCalls s' = Suc (refineCalls s)"
  using assms
  by (auto simp: refineAndRegenerate_def Let_def setStep_def setGeneratedPrompt_def newImage_def
        setGeneratedImage_def setLoopCount_def recordImage_def split: sum.splits)

lemma loopBody_Inr:
  assumes "loopBody formData env s = Inr s'"
  shows "\<exists>c. critiqueReply env (length (critiqued s)) = Inr (Some c) \<and>
     critiqued s' = critiqued s @ [(currentImage s, score c)] \<and>
     bestScore s' = (if score c > bestScore s then score c else bestScore s) \<and>
     bestImage s' = (if score c > bestScore s then currentImage s else bestImage s) \<and>
     (if score c \<ge> QUALITY_THRESHOLD
      then isSatisfied s' \<and> loops s' = loops s \<and> generated s' = generated s \<and>
           currentImage s' = currentImage s \<and> allocated (ui s') = allocated (ui s) \<and>
           generatedImage (ui s') = generatedImage (ui s) \<and>
           loopCount (ui s') = loopCount (ui s) \<and> refineCalls s' = refineCalls s
      else isSatisfied s' = isSatisfied s \<and> loops s' = Suc (loops s) \<and>
           (\<exists>img. generated s' = generated s @ [ImageObject (allocated (ui s)) img] \<and>
                  currentImage s' = ImageObject (allocated (ui s)) img) \<and>
           allocated (ui s') = Suc (allocated (ui s)) \<and>
           generatedImage (ui s') = Some (currentImage s') \<and>
           loopCount (ui s') = Suc (loops s) \<and>
           refineCalls s' = Suc (refineCalls s))"
proof -
  let ?s1 = "setStep CRITIQUING s"
  from assms obtain c where c: "critiqueGeneratedImage (fd_description formData)
      (content (currentImage ?s1)) (critiqueReply env (length (critiqued ?s1))) = Inr c"
    by (auto simp: loopBody_def Let_def split: sum.splits)
  then have reply: "critiqueReply env (length (critiqued s)) = Inr (Some c)"
    by (auto simp: critiqueGeneratedImage_def setStep_def split: sum.splits option.splits)
  let ?s2 = "trackBest c (setCritique c
      (?s1\<lparr> critiqued := critiqued ?s1 @ [(currentImage ?s1, score c)] \<rparr>))"
  have s2: "critiqued ?s2 = critiqued s @ [(currentImage s, score c)]"
    "bestScore ?s2 = (if score c > bestScore s then score c else bestScore s)"
    "bestImage ?s2 = (if score c > bestScore s then currentImage s else bestImage s)"
    "isSatisfied ?s2 = isSatisfied s" "loops ?s2 = loops s" "generated ?s2 = generated s"
    "currentImage ?s2 = currentImage s" "allocated (ui ?s2) = allocated (ui s)"
    "generatedImage (ui ?s2) = generatedImage (ui s)" "loopCount (ui ?s2) = loopCount (ui s)"
    "refineCalls ?s2 = refineCalls s"
    by (simp_all add: trackBest_def setCritique_def setStep_def)
  show ?thesis
  proof (cases "score c \<ge> QUALITY_THRESHOLD")
    case True
    with assms c have "s' = ?s2\<lparr> isSatisfied := True \<rparr>"
      by (simp add: loopBody_def Let_def)
    with True reply s2 show ?thesis
      by (intro exI [of _ c]) simp
  next
    case False
    with assms c have "refineAndRegenerate formData env c ?s2 = Inr s'"
      by (simp add: loopBody_def Let_def)
    from refineAndRegenerate_Inr [OF this] False reply s2 show ?thesis
      by (intro exI [of _ c]) simp
  qed
qed

lemma track_snoc:
  "track best (xs @ [x]) = (if snd x > snd (track best xs) then x else track best xs)"
  by (induction xs arbitrary: best) auto

lemma take_snoc_last:
  "length xs = Suc n \<Longrightarrow> take n xs @ [last xs] = xs"
  by (metis append_butlast_last_id butlast_conv_take diff_Suc_1 length_0_conv nat.distinct(1))

lemma loopInv_step:
  assumes inv: "loopInv env a0 s" and guard: "loopGuard s"
      and body: "loopBody formData env s = Inr s'"
  shows "loopInv env a0 s'"
proof -
  from guard have lt: "loops s < MAX_REFINEMENT_LOOPS" and nsat: "\<not> isSatisfied s"
    by (simp_all add: loopGuard_def)
  from inv nsat have
    len: "length (generated s) = Suc (loops s)" and
    cur: "currentImage s = last (generated s)" and
    ids: "map objId (generated s) = [a0 ..< a0 + length (generated s)]" and
    alloc: "allocated (ui s) = a0 + length (generated s)" and
    clen: "length (critiqued s) = loops s" and
    cimg: "map fst (critiqued s) = take (length (critiqued s)) (generated s)" and
    low: "\<forall>j < loops s. snd (critiqued s ! j) < QUALITY_THRESHOLD" and
    best: "(bestImage s, bestScore s) = track (hd (generated s), 0) (critiqued s)" and
    link: "\<forall>j < length (critiqued s).
        \<exists>c. critiqueReply env j = Inr (Some c) \<and> score c = snd (critiqued s ! j)"
    by (simp_all add: loopInv_def)
  from len have ne: "generated s \<noteq> []" by auto
  from loopBody_Inr [OF body] obtain c where
    reply: "critiqueReply env (length (critiqued s)) = Inr (Some c)" and
    crit': "critiqued s' = critiqued s @ [(currentImage s, score c)]" and
    bs': "bestScore s' = (if score c > bestScore s then score c else bestScore s)" and
    bi': "bestImage s' = (if score c > bestScore s then currentImage s else bestImage s)" and
    rest: "if score c \<ge> QUALITY_THRESHOLD
      then isSatisfied s' \<and> loops s' = loops s \<and> generated s' = generated s \<and>
           currentImage s' = currentImage s \<and> allocated (ui s') = allocated (ui s) \<and>
           generatedImage (ui s') = generatedImage (ui s) \<and>
           loopCount (ui s') = loopCount (ui s) \<and> refineCalls s' = refineCalls s
      else isSatisfied s' = isSatisfied s \<and> loops s' = Suc (loops s) \<and>
           (\<exists>img. generated s' = generated s @ [ImageObject (allocated (ui s)) img] \<and>
                  currentImage s' = ImageObject (allocated (ui s)) img) \<and>
           allocated (ui s') = Suc (allocated (ui s)) \<and>
           generatedImage (ui s') = Some (currentImage s') \<and>
           loopCount (ui s') = Suc (loops s) \<and>
           refineCalls s' = Suc (refineCalls s)"
    by blast
  have fsts: "map fst (critiqued s') = generated s"
    using crit' cimg clen cur len take_snoc_last [of "generated s" "loops s"] by simp
  have track': "(bestImage s', bestScore s') = track (hd (generated s), 0) (critiqued s')"
    using bs' bi' best [symmetric] crit' by (simp add: track_snoc)
  have low': "\<forall>j < Suc (loops s). j < loops s \<or> score c < QUALITY_THRESHOLD \<longrightarrow>
                snd (critiqued s' ! j) < QUALITY_THRESHOLD"
    using low crit' clen by (auto simp: nth_append less_Suc_eq)
  have link': "\<forall>j < length (critiqued s').
        \<exists>c. critiqueReply env j = Inr (Some c) \<and> score c = snd (critiqued s' ! j)"
    using link crit' reply by (auto simp: nth_append less_Suc_eq)
  show ?thesis
  proof (cases "score c \<ge> QUALITY_THRESHOLD")
    case True
    with rest have r: "isSatisfied s'" "loops s' = loops s" "generated s' = generated s"
      "currentImage s' = currentImage s" "allocated (ui s') = allocated (ui s)"
      "generatedImage (ui s') = generatedImage (ui s)" "loopCount (ui s') = loopCount (ui s)"
      by simp_all
    have "snd (last (critiqued s')) \<ge> QUALITY_THRESHOLD"
      using True crit' by simp
    with r inv lt fsts track' low' link' crit' clen len show ?thesis
      unfolding loopInv_def by simp
  next
    case False
    with rest obtain img where r: "isSatisfied s' = isSatisfied s" "loops s' = Suc (loops s)"
      "generated s' = generated s @ [ImageObject (allocated (ui s)) img]"
      "currentImage s' = ImageObject (allocated (ui s)) img"
      "allocated (ui s') = Suc (allocated (ui s))"
      "generatedImage (ui s') = Some (currentImage s')" "loopCount (ui s') = Suc (loops s)"
      by auto
    have ids': "map objId (generated s') = [a0 ..< a0 + length (generated s')]"
      using r(3) ids alloc by simp
    have hd': "hd (generated s') = hd (generated s)"
      using r(3) ne by simp
    have low'': "\<forall>j < loops s'. snd (critiqued s' ! j) < QUALITY_THRESHOLD"
      using low' False r(2) by auto
    show ?thesis
      unfolding loopInv_def
      using r nsat lt fsts track' low'' link' crit' clen len ids' hd' alloc
      by simp
  qed
qed

lemma establishPrompt_Inr:
  assumes "establishPrompt formData env initialPrompt initialFeedback (resetState app)
             = Inr (p, n, app')"
  shows "allocated app' = allocated app \<and> loopCount app' = 0"
  using assms
  by (auto simp: establishPrompt_def resetState_def Let_def split: if_splits sum.splits)

lemma initialGeneration_Inr:
  assumes "initialGeneration formData env (p, n, app') = Inr s0"
  shows "\<exists>img. s0 = \<lparr> ui = app'\<lparr> step := GENERATING_IMAGE,
                                 generatedImage := Some (ImageObject (allocated app') img),
                                 allocated := Suc (allocated app') \<rparr>,
                     currentPrompt = p,
                     currentImage = ImageObject (allocated app') img,
                     loops = 0,
                     bestImage = ImageObject (allocated app') img,
                     bestScore = 0,
                     isSatisfied = False,
                     generated = [ImageObject (allocated app') img],
                     critiqued = [],
                     refineCalls = n \<rparr>"
  using assms
  by (auto simp: initialGeneration_def Let_def split: sum.splits)

lemma loopStart_Inr:
  assumes "loopStart formData env initialPrompt initialFeedback app = Inr s0"
  shows "loopInv env (allocated app) s0 \<and> loops s0 = 0 \<and> \<not> isSatisfied s0 \<and>
         bestScore s0 = 0 \<and> critiqued s0 = [] \<and> length (generated s0) = 1 \<and>
         bestImage s0 = hd (generated s0)"
proof -
  from assms obtain p n app' where
    e: "establishPrompt formData env initialPrompt initialFeedback (resetState app)
          = Inr (p, n, app')" and
    g: "initialGeneration formData env (p, n, app') = Inr s0"
    by (auto simp: loopStart_def split: sum.splits)
  from establishPrompt_Inr [OF e] initialGeneration_Inr [OF g] show ?thesis
    by (auto simp: loopInv_def)
qed

lemma scoringLoop_inv:
  assumes "scoringLoop formData env s = Inr t" and "loopInv env a0 s"
  shows "loopInv env a0 t \<and> \<not> loopGuard t"
  using assms
proof (induction formData env s rule: scoringLoop.induct)
  case (1 formData env s)
  show ?case
  proof (cases "loopGuard s")
    case False
    with "1.prems" show ?thesis by (simp add: scoringLoop.simps [of formData env s])
  next
    case True
    with "1.prems"(1) obtain s' where body: "loopBody formData env s = Inr s'"
      and rec: "scoringLoop formData env s' = Inr t"
      by (auto simp: scoringLoop.simps [of formData env s] split: sum.splits)
    from loopInv_step [OF "1.prems"(2) True body] have "loopInv env a0 s'" .
    with "1.IH" [OF True body rec] show ?thesis .
  qed
qed

lemma scoringLoop_afterIterations:
  assumes "scoringLoop formData env s = Inr t"
  shows "\<exists>n. afterIterations formData env n s = Some t"
  using assms
proof (induction formData env s rule: scoringLoop.induct)
  case (1 formData env s)
  show ?case
  proof (cases "loopGuard s")
    case False
    with "1.prems" have "afterIterations formData env 0 s = Some t"
      by (simp add: scoringLoop.simps [of formData env s])
    then show ?thesis ..
  next
    case True
    with "1.prems"(1) obtain s' where body: "loopBody formData env s = Inr s'"
      and rec: "scoringLoop formData env s' = Inr t"
      by (auto simp: scoringLoop.simps [of formData env s] split: sum.splits)
    from "1.IH" [OF True body rec] obtain n where "afterIterations formData env n s' = Some t" ..
    with True body have "afterIterations formData env (Suc n) s = Some t" by simp
    then show ?thesis ..
  qed
qed

lemma afterIterations_inv:
  assumes "afterIterations formData env n s = Some u" and "loopInv env a0 s"
  shows "loopInv env a0 u"
  using assms
proof (induction n arbitrary: s)
  case 0
  then show ?case by simp
next
  case (Suc n)
  from Suc.prems(1) obtain s' where g: "loopGuard s" and body: "loopBody formData env s = Inr s'"
    and rec: "afterIterations formData env n s' = Some u"
    by (auto split: if_splits sum.splits)
  from Suc.IH [OF rec loopInv_step [OF Suc.prems(2) g body]] show ?case .
qed




lemma track_none_greater:
  "\<forall>x \<in> set xs. snd x \<le> snd b \<Longrightarrow> track b xs = b"
  by (induction xs arbitrary: b) auto


lemma track_fst_mem: "fst (track b xs) \<in> insert (fst b) (fst ` set xs)"
proof (induction xs arbitrary: b)
  case Nil
  show ?case by simp
next
  case (Cons x xs)
  from Cons [of "if snd x > snd b then x else b"] show ?case
    by (auto split: if_splits)
qed


lemma loopInv_bestImage_generated:
  assumes "loopInv env a0 t"
  shows "bestImage t \<in> set (generated t)" and "currentImage t \<in> set (generated t)"
    and "inj_on objId (set (generated t))"
proof -
  from assms have len: "length (generated t) = Suc (loops t)"
    and cur: "currentImage t = last (generated t)"
    and ids: "map objId (generated t) = [a0 ..< a0 + length (generated t)]"
    and cimg: "map fst (critiqued t) = take (length (critiqued t)) (generated t)"
    and best: "(bestImage t, bestScore t) = track (hd (generated t), 0) (critiqued t)"
    by (simp_all add: loopInv_def)
  from len have ne: "generated t \<noteq> []" by auto
  have "fst ` set (critiqued t) = set (map fst (critiqued t))" by simp
  also have "\<dots> \<subseteq> set (generated t)"
    unfolding cimg by (rule set_take_subset)
  finally have sub: "fst ` set (critiqued t) \<subseteq> set (generated t)" .
  have "bestImage t = fst (track (hd (generated t), 0) (critiqued t))"
    using best by (metis fst_conv)
  also have "\<dots> \<in> insert (hd (generated t)) (fst ` set (critiqued t))"
    using track_fst_mem [of "(hd (generated t), 0)" "critiqued t"] by simp
  finally show "bestImage t \<in> set (generated t)"
    using sub ne by auto
  show "currentImage t \<in> set (generated t)"
    using cur ne by simp
  have "distinct (map objId (generated t))"
    unfolding ids by simp
  then show "inj_on objId (set (generated t))"
    by (simp add: distinct_map)
qed

lemma restoreBest_fields:
  assumes "loopInv env a0 t"
  shows "currentImage (restoreBest t) = bestImage t"
    and "generatedImage (ui (restoreBest t)) = Some (bestImage t)"
    and "generated (restoreBest t) = generated t"
    and "critiqued (restoreBest t) = critiqued t"
    and "loops (restoreBest t) = loops t"
    and "isSatisfied (restoreBest t) = isSatisfied t"
    and "bestImage (restoreBest t) = bestImage t"
    and "bestScore (restoreBest t) = bestScore t"
    and "loopCount (ui (restoreBest t)) = loopCount (ui t)"
proof -
  have eq: "objId (currentImage t) = objId (bestImage t) \<Longrightarrow> currentImage t = bestImage t"
    using loopInv_bestImage_generated [OF assms] by (auto dest: inj_onD)
  from assms have gi: "generatedImage (ui t) = Some (currentImage t)"
    by (simp add: loopInv_def)
  show "currentImage (restoreBest t) = bestImage t"
    using eq by (auto simp: restoreBest_def setGeneratedImage_def)
  show "generatedImage (ui (restoreBest t)) = Some (bestImage t)"
    using eq gi by (auto simp: restoreBest_def setGeneratedImage_def)
qed (simp_all add: restoreBest_def setGeneratedImage_def)

lemma finish_fields:
  "currentImage (finish r) = currentImage r"
  "generatedImage (ui (finish r)) = generatedImage (ui r)"
  "generated (finish r) = generated r"
  "critiqued (finish r) = critiqued r"
  "loops (finish r) = loops r"
  "isSatisfied (finish r) = isSatisfied r"
  "bestImage (finish r) = bestImage r"
  "bestScore (finish r) = bestScore r"
  "loopCount (ui (finish r)) = loopCount (ui r)"
  "step (ui (finish r)) = (if isSatisfied r then GENERATING_VIDEO else AWAITING_APPROVAL)"
  "isSatisfied r \<Longrightarrow> videoSource (ui (finish r)) = Some (currentImage r)"
  by (simp_all add: finish_def setStep_def)

text \<open>
  A run in which nothing threw: the loop started in some state, ended in a state \<open>t\<close>
  that satisfies the invariant and fails the loop's condition, and the final state is
  \<open>t\<close> after the reconciliation and the last decision.
\<close>

lemma run_Inr:
  assumes "executeGenerationLoop formData env initialPrompt initialFeedback app = Inr s"
  shows "\<exists>s0 t. loopStart formData env initialPrompt initialFeedback app = Inr s0 \<and>
           scoringLoop formData env s0 = Inr t \<and> s = finish (restoreBest t) \<and>
           loopInv env (allocated app) t \<and> \<not> loopGuard t"
proof -
  from assms have "tryBody formData env initialPrompt initialFeedback app = Inr s"
    by (auto simp: executeGenerationLoop_def split: sum.splits prod.splits)
  then obtain s0 t where
    start: "loopStart formData env initialPrompt initialFeedback app = Inr s0" and
    loop: "scoringLoop formData env s0 = Inr t" and s: "s = finish (restoreBest t)"
    by (auto simp: tryBody_def split: sum.splits)
  from loopStart_Inr [OF start] have "loopInv env (allocated app) s0" by simp
  from scoringLoop_inv [OF loop this] start loop s show ?thesis by blast
qed

lemma final_fields:
  assumes "loopInv env a0 t"
  shows "currentImage (finish (restoreBest t)) = bestImage t"
    and "generatedImage (ui (finish (restoreBest t))) = Some (bestImage t)"
    and "generated (finish (restoreBest t)) = generated t"
    and "critiqued (finish (restoreBest t)) = critiqued t"
    and "loops (finish (restoreBest t)) = loops t"
    and "isSatisfied (finish (restoreBest t)) = isSatisfied t"
    and "bestImage (finish (restoreBest t)) = bestImage t"
    and "bestScore (finish (restoreBest t)) = bestScore t"
    and "loopCount (ui (finish (restoreBest t))) = loopCount (ui t)"
    and "step (ui (finish (restoreBest t)))
           = (if isSatisfied t then GENERATING_VIDEO else AWAITING_APPROVAL)"
    and "isSatisfied t \<Longrightarrow> videoSource (ui (finish (restoreBest t))) = Some (bestImage t)"
  by (simp_all add: finish_fields restoreBest_fields [OF assms])

text \<open>
  At the end of the loop: either the last critique reached the threshold and no image
  was generated after it, or all \<open>MAX_REFINEMENT_LOOPS\<close> critiques stayed below it.
\<close>

lemma loop_end_cases:
  assumes inv: "loopInv env a0 t" and stop: "\<not> loopGuard t"
  shows "(isSatisfied t \<and> length (critiqued t) = Suc (loops t) \<and>
          QUALITY_THRESHOLD \<le> snd (critiqued t ! loops t)) \<or>
         (\<not> isSatisfied t \<and> loops t = MAX_REFINEMENT_LOOPS \<and>
          length (critiqued t) = MAX_REFINEMENT_LOOPS)"
proof (cases "isSatisfied t")
  case True
  with inv have len: "length (critiqued t) = Suc (loops t)"
    and "QUALITY_THRESHOLD \<le> snd (last (critiqued t))"
    by (simp_all add: loopInv_def)
  moreover from len have "last (critiqued t) = critiqued t ! loops t"
    by (metis diff_Suc_1 last_conv_nth length_0_conv nat.distinct(1))
  ultimately show ?thesis using True by simp
next
  case False
  with inv stop show ?thesis
    by (auto simp: loopInv_def loopGuard_def)
qed

lemma first_critique_is_V1:
  assumes "loopInv env a0 t" and "critiqued t \<noteq> []"
  shows "fst (hd (critiqued t)) = hd (generated t)"
proof -
  from assms(1) have cimg: "map fst (critiqued t) = take (length (critiqued t)) (generated t)"
    and len: "length (generated t) = Suc (loops t)"
    by (simp_all add: loopInv_def)
  from len have gne: "generated t \<noteq> []" by auto
  have "fst (hd (critiqued t)) = hd (map fst (critiqued t))"
    using assms(2) by (simp add: hd_map)
  also have "\<dots> = hd (generated t)"
    unfolding cimg using assms(2) gne by (cases "critiqued t"; cases "generated t") simp_all
  finally show ?thesis .
qed

lemma afterIterations_counts:
  assumes "afterIterations formData env n s = Some u"
  shows "length (critiqued u) = length (critiqued s) + n \<and>
         refineCalls u + loops s = refineCalls s + loops u"
  using assms
proof (induction n arbitrary: s)
  case 0
  then show ?case by simp
next
  case (Suc n)
  from Suc.prems obtain s' where body: "loopBody formData env s = Inr s'"
    and rec: "afterIterations formData env n s' = Some u"
    by (auto split: if_splits sum.splits)
  from loopBody_Inr [OF body] have "length (critiqued s') = Suc (length (critiqued s))"
    and "refineCalls s' + loops s = refineCalls s + loops s'"
    by (auto split: if_splits)
  with Suc.IH [OF rec] show ?case by simp
qed

text \<open>
  With providers that always answer, the function returns normally: the properties
  below, stated for the runs in which nothing threw, are about all of these runs.
\<close>

lemma refinePrompt_returns:
  "\<exists>p. refinePrompt prompt c userFeedback (Inr r) = Inr p"
  by (cases "response_text r") (simp_all add: refinePrompt_def)

lemma optimizePrompt_returns:
  "\<exists>p. optimizePrompt name description style scenario backgroundMode userImageBase64 (Inr r)
         = Inr p"
  by (cases "response_text r") (simp_all add: optimizePrompt_def)

lemma loopBody_answering:
  assumes "answering env"
  shows "\<exists>s'. loopBody formData env s = Inr s'"
proof -
  from assms obtain c where c: "critiqueReply env (length (critiqued s)) = Inr (Some c)"
    unfolding answering_def by blast
  from assms obtain r where r: "refineReply env (refineCalls s) = Inr r"
    unfolding answering_def by blast
  from assms have img: "\<And>n request. \<exists>parts image. imageReply env n request = Inr parts \<and>
                                 firstInlineData parts = Inr image"
    unfolding answering_def by blast
  show ?thesis
  proof (cases "score c \<ge> QUALITY_THRESHOLD")
    case True
    with c show ?thesis
      by (simp add: loopBody_def Let_def critiqueGeneratedImage_def setStep_def)
  next
    case False
    from refinePrompt_returns obtain p where
      p: "refinePrompt (currentPrompt s) c None (Inr r) = Inr p"
      by blast
    from img [of "length (generated s)" "generateAvatarImage_request p (fd_userImage formData)"]
    obtain parts image where
      "imageReply env (length (generated s))
         (generateAvatarImage_request p (fd_userImage formData)) = Inr parts"
      "firstInlineData parts = Inr image"
      by blast
    with False c r p show ?thesis
      by (simp add: loopBody_def Let_def critiqueGeneratedImage_def setStep_def
            refineAndRegenerate_def trackBest_def setCritique_def setGeneratedPrompt_def
            newImage_def generateAvatarImage_def)
  qed
qed

lemma scoringLoop_answering:
  assumes "answering env"
  shows "\<exists>t. scoringLoop formData env s = Inr t"
  using assms
proof (induction formData env s rule: scoringLoop.induct)
  case (1 formData env s)
  show ?case
  proof (cases "loopGuard s")
    case False
    then show ?thesis by (simp add: scoringLoop.simps [of formData env s])
  next
    case True
    from loopBody_answering [OF "1.prems"] obtain s' where
      body: "loopBody formData env s = Inr s'" by blast
    from "1.IH" [OF True body "1.prems"] True body show ?thesis
      by (simp add: scoringLoop.simps [of formData env s])
  qed
qed

lemma executeGenerationLoop_returns:
  assumes "answering env"
  shows "\<exists>s. executeGenerationLoop formData env initialPrompt initialFeedback app = Inr s"
proof -
  from assms obtain r where r: "optimizeReply env = Inr r"
    unfolding answering_def by blast
  from assms obtain r0 where r0: "refineReply env 0 = Inr r0"
    unfolding answering_def by blast
  from assms have img: "\<And>n request. \<exists>parts image. imageReply env n request = Inr parts \<and>
                                 firstInlineData parts = Inr image"
    unfolding answering_def by blast
  have "\<exists>e. establishPrompt formData env initialPrompt initialFeedback (resetState app) = Inr e"
  proof -
    let ?cur = "case initialPrompt of None \<Rightarrow> [] | Some p \<Rightarrow> p"
    from optimizePrompt_returns obtain p1 where
      "optimizePrompt (fd_name formData) (fd_description formData) (fd_style formData)
         (fd_scenario formData) (fd_backgroundMode formData) (fd_userImage formData) (Inr r)
       = Inr p1"
      by blast
    moreover from refinePrompt_returns obtain p2 where
      "refinePrompt ?cur \<lparr> score = 0, feedback = ''User Feedback Loop'',
          suggestions = the initialFeedback \<rparr> initialFeedback (Inr r0) = Inr p2"
      by blast
    ultimately show ?thesis
      using r r0 by (simp add: establishPrompt_def Let_def)
  qed
  then obtain p n app' where
    e: "establishPrompt formData env initialPrompt initialFeedback (resetState app)
          = Inr (p, n, app')"
    by (metis prod_cases3)
  from img [of 0 "generateAvatarImage_request p (fd_userImage formData)"]
  obtain s0 where g: "initialGeneration formData env (p, n, app') = Inr s0"
    by (auto simp: initialGeneration_def Let_def generateAvatarImage_def)
  from scoringLoop_answering [OF assms] obtain t where "scoringLoop formData env s0 = Inr t"
    by blast
  with e g show ?thesis
    by (simp add: executeGenerationLoop_def tryBody_def loopStart_def)
qed

text \<open>
  The images of a run are the replies to its calls of \<^verbatim>\<open>generateAvatarImage\<close>, in order,
  and the scores it received are the critic's replies, in order.
\<close>

lemma loopBody_generated:
  assumes "loopBody formData env s = Inr s'"
  shows "generated s' = generated s \<or>
         (\<exists>prompt pic.
            replyImage formData env (length (generated s)) prompt = Some pic \<and>
            generated s' = generated s @ [ImageObject (allocated (ui s)) pic])"
proof -
  have r: "\<And>prompt pic. generateAvatarImage prompt (fd_userImage formData)
              (imageReply env (length (generated s))) = Inr pic \<Longrightarrow>
           replyImage formData env (length (generated s)) prompt = Some pic"
    by (simp add: replyImage_def)
  from assms have "generated s' = generated s \<or>
         (\<exists>prompt pic.
            generateAvatarImage prompt (fd_userImage formData)
              (imageReply env (length (generated s))) = Inr pic \<and>
            generated s' = generated s @ [ImageObject (allocated (ui s)) pic])"
    by (fastforce simp: loopBody_def refineAndRegenerate_def Let_def setStep_def
          setGeneratedPrompt_def newImage_def setGeneratedImage_def setLoopCount_def
          recordImage_def trackBest_def setCritique_def
          split: sum.splits if_splits)
  with r show ?thesis by blast
qed

lemma imagesInv_step:
  assumes "imagesInv formData env s" and "loopBody formData env s = Inr s'"
  shows "imagesInv formData env s'"
proof -
  from loopBody_generated [OF assms(2)] show ?thesis
  proof
    assume "generated s' = generated s"
    with assms(1) show ?thesis by (simp add: imagesInv_def)
  next
    assume "\<exists>prompt pic.
            replyImage formData env (length (generated s)) prompt = Some pic \<and>
            generated s' = generated s @ [ImageObject (allocated (ui s)) pic]"
    then obtain prompt pic where
      r: "replyImage formData env (length (generated s)) prompt = Some pic" and
      g: "generated s' = generated s @ [ImageObject (allocated (ui s)) pic]"
      by blast
    show ?thesis
      unfolding imagesInv_def
    proof (intro allI impI)
      fix j assume "j < length (generated s')"
      then have "j < length (generated s) \<or> j = length (generated s)"
        using g by auto
      then show "\<exists>prompt. replyImage formData env j prompt = Some (content (generated s' ! j))"
      proof
        assume "j < length (generated s)"
        with assms(1) g show ?thesis by (simp add: imagesInv_def nth_append)
      next
        assume "j = length (generated s)"
        with r g show ?thesis by auto
      qed
    qed
  qed
qed

lemma scoringLoop_images:
  assumes "scoringLoop formData env s = Inr t" and "imagesInv formData env s"
  shows "imagesInv formData env t"
  using assms
proof (induction formData env s rule: scoringLoop.induct)
  case (1 formData env s)
  show ?case
  proof (cases "loopGuard s")
    case False
    with "1.prems" show ?thesis by (simp add: scoringLoop.simps [of formData env s])
  next
    case True
    with "1.prems"(1) obtain s' where body: "loopBody formData env s = Inr s'"
      and rec: "scoringLoop formData env s' = Inr t"
      by (auto simp: scoringLoop.simps [of formData env s] split: sum.splits)
    from "1.IH" [OF True body rec imagesInv_step [OF "1.prems"(2) body]] show ?thesis .
  qed
qed

lemma loopStart_images:
  assumes "loopStart formData env initialPrompt initialFeedback app = Inr s0"
  shows "imagesInv formData env s0"
proof -
  from assms obtain p n app' where
    g: "initialGeneration formData env (p, n, app') = Inr s0"
    by (auto simp: loopStart_def split: sum.splits)
  then obtain pic where
    "generateAvatarImage p (fd_userImage formData) (imageReply env 0) = Inr pic"
    "generated s0 = [ImageObject (allocated app') pic]"
    by (auto simp: initialGeneration_def Let_def split: sum.splits)
  then have "replyImage formData env 0 p = Some (content (generated s0 ! 0))"
    by (simp add: replyImage_def)
  then show ?thesis
    using \<open>generated s0 = [ImageObject (allocated app') pic]\<close>
    by (auto simp: imagesInv_def)
qed

lemma run_ties:
  assumes "executeGenerationLoop formData env initialPrompt initialFeedback app = Inr s"
  shows "(\<forall>j < length (critiqued s). replyScore env j = Some (snd (critiqued s ! j))) \<and>
         (\<forall>j < length (generated s).
            \<exists>prompt. replyImage formData env j prompt = Some (content (generated s ! j)))"
proof -
  from run_Inr [OF assms] obtain s0 t where
    start: "loopStart formData env initialPrompt initialFeedback app = Inr s0" and
    loop: "scoringLoop formData env s0 = Inr t" and
    s: "s = finish (restoreBest t)" and inv: "loopInv env (allocated app) t"
    by blast
  note ff = final_fields [OF inv, folded s]
  from inv have "\<forall>j < length (critiqued t).
        \<exists>c. critiqueReply env j = Inr (Some c) \<and> score c = snd (critiqued t ! j)"
    by (simp add: loopInv_def)
  then have scores: "\<forall>j < length (critiqued t). replyScore env j = Some (snd (critiqued t ! j))"
    by (auto simp: replyScore_def)
  from scoringLoop_images [OF loop loopStart_images [OF start]]
  have "imagesInv formData env t" .
  with scores show ?thesis
    unfolding ff by (simp add: imagesInv_def)
qed

section \<open>Example runs\<close>

lemma trim_example_prompts:
  "trim (ascii ''a turnaround sheet'') = ascii ''a turnaround sheet''"
  "trim (ascii ''a better turnaround sheet'') = ascii ''a better turnaround sheet''"
  by (simp_all add: trim_def ascii_def isWhiteSpace_def)

lemma ascii_example_prompts:
  "ascii ''a turnaround sheet'' \<noteq> []" "ascii ''a better turnaround sheet'' \<noteq> []"
  by (simp_all add: ascii_def)

lemmas run_defs =
  executeGenerationLoop_def tryBody_def loopStart_def establishPrompt_def
  initialGeneration_def resetState_def freshApp_def novaBrief_def scriptedProviders_def
  scriptedCritic_def scriptedCritique_def optimizePrompt_def generateAvatarImage_def
  loopGuard_def loopBody_def Let_def critiqueGeneratedImage_def trackBest_def setStep_def
  setCritique_def refineAndRegenerate_def refinePrompt_def newImage_def recordImage_def
  setGeneratedImage_def setGeneratedPrompt_def setLoopCount_def QUALITY_THRESHOLD_def
  MAX_REFINEMENT_LOOPS_def restoreBest_def finish_def truthy_def
  generateAvatarImage_request_def img_def png_def scoringLoop.simps
  trim_example_prompts ascii_example_prompts

lemma run_60_72_85_eval:
  "executeGenerationLoop novaBrief (scriptedProviders [60, 72, 85]) None None freshApp
     = Inr run_60_72_85"
  by (simp add: run_defs run_60_72_85_def)


lemma run_80_95_70_eval:
  "executeGenerationLoop novaBrief (scriptedProviders [80, 95, 70]) None None freshApp
     = Inr run_80_95_70"
  by (simp add: run_defs run_80_95_70_def)

lemma loopStart_40_60_60_eval:
  "loopStart novaBrief (scriptedProviders [40, 60, 60]) None None freshApp
     = Inr loopStart_40_60_60"
  by (simp add: run_defs loopStart_40_60_60_def)

lemma loopEnd_40_60_60_eval:
  "afterIterations novaBrief (scriptedProviders [40, 60, 60]) 3 loopStart_40_60_60
     = Some loopEnd_40_60_60"
  by (simp add: run_defs numeral_3_eq_3 loopStart_40_60_60_def loopEnd_40_60_60_def)

text \<open>
  How many critiques a run makes: every score but the last is below the threshold, and
  the last one reached it unless all \<open>MAX_REFINEMENT_LOOPS\<close> critiques were made.
\<close>

lemma critique_count:
  assumes inv: "loopInv env a0 t" and stop: "\<not> loopGuard t"
  shows "(\<forall>j. Suc j < length (critiqued t) \<longrightarrow> snd (critiqued t ! j) < QUALITY_THRESHOLD) \<and>
         (length (critiqued t) = MAX_REFINEMENT_LOOPS \<or>
          QUALITY_THRESHOLD \<le> snd (last (critiqued t))) \<and>
         length (critiqued t) \<le> MAX_REFINEMENT_LOOPS \<and> critiqued t \<noteq> []"
proof -
  from inv have low: "\<forall>j < loops t. snd (critiqued t ! j) < QUALITY_THRESHOLD"
    and clen: "length (critiqued t) = loops t + (if isSatisfied t then 1 else 0)"
    and bound: "loops t \<le> MAX_REFINEMENT_LOOPS"
    and satlt: "isSatisfied t \<longrightarrow> loops t < MAX_REFINEMENT_LOOPS"
    and top: "isSatisfied t \<longrightarrow> QUALITY_THRESHOLD \<le> snd (last (critiqued t))"
    by (simp_all add: loopInv_def)
  have a: "\<forall>j. Suc j < length (critiqued t) \<longrightarrow> snd (critiqued t ! j) < QUALITY_THRESHOLD"
    using low clen by (auto split: if_splits)
  have b: "length (critiqued t) = MAX_REFINEMENT_LOOPS \<or>
          QUALITY_THRESHOLD \<le> snd (last (critiqued t))"
    using loop_end_cases [OF inv stop] top by blast
  have c: "length (critiqued t) \<le> MAX_REFINEMENT_LOOPS"
    using clen bound satlt by (auto split: if_splits)
  have d: "critiqued t \<noteq> []"
    using loop_end_cases [OF inv stop] by (auto simp: MAX_REFINEMENT_LOOPS_def)
  from a b c d show ?thesis by blast
qed

text \<open>
  The state in which the loop ends when it ends unsatisfied.
\<close>

lemma exhausted_end_state:
  assumes inv: "loopInv env a0 t" and stop: "\<not> loopGuard t" and nsat: "\<not> isSatisfied t"
  shows "length (critiqued t) = MAX_REFINEMENT_LOOPS"
    and "length (generated t) = Suc (length (critiqued t))"
    and "map fst (critiqued t) = butlast (generated t)"
    and "distinct (map objId (generated t))"
    and "last (generated t) \<notin> fst ` set (critiqued t)"
    and "bestImage t \<in> fst ` set (critiqued t)"
    and "objId (bestImage t) \<noteq> objId (last (generated t))"
    and "currentImage t = last (generated t)"
    and "(\<forall>x \<in> set (map snd (critiqued t)). x \<le> 0) \<longrightarrow> bestImage t = hd (generated t)"
proof -
  from inv have len: "length (generated t) = Suc (loops t)"
    and cur: "currentImage t = last (generated t)"
    and ids: "map objId (generated t) = [a0 ..< a0 + length (generated t)]"
    and cimg: "map fst (critiqued t) = take (length (critiqued t)) (generated t)"
    and best: "(bestImage t, bestScore t) = track (hd (generated t), 0) (critiqued t)"
    by (simp_all add: loopInv_def)
  from nsat loop_end_cases [OF inv stop] have full: "loops t = MAX_REFINEMENT_LOOPS"
    and clen: "length (critiqued t) = MAX_REFINEMENT_LOOPS"
    by simp_all
  from clen have ne: "critiqued t \<noteq> []" by (auto simp: MAX_REFINEMENT_LOOPS_def)
  from len have gne: "generated t \<noteq> []" by auto
  show "length (critiqued t) = MAX_REFINEMENT_LOOPS" by (rule clen)
  show glen: "length (generated t) = Suc (length (critiqued t))"
    using len full clen by simp
  show bl: "map fst (critiqued t) = butlast (generated t)"
    unfolding cimg using glen by (simp add: butlast_conv_take)
  show dist: "distinct (map objId (generated t))"
    unfolding ids by simp
  then have dg: "distinct (generated t)" by (simp add: distinct_map)
  have "distinct (butlast (generated t) @ [last (generated t)])"
    using dg gne by simp
  then have notin: "last (generated t) \<notin> set (butlast (generated t))" by simp
  then show lastnot: "last (generated t) \<notin> fst ` set (critiqued t)"
    using bl by (metis set_map)
  have hdin: "hd (generated t) \<in> fst ` set (critiqued t)"
    using first_critique_is_V1 [OF inv ne] ne by (metis hd_in_set imageI)
  have "bestImage t = fst (track (hd (generated t), 0) (critiqued t))"
    using best by (metis fst_conv)
  also have "\<dots> \<in> insert (hd (generated t)) (fst ` set (critiqued t))"
    using track_fst_mem [of "(hd (generated t), 0)" "critiqued t"] by simp
  finally show bin: "bestImage t \<in> fst ` set (critiqued t)"
    using hdin by (simp add: insert_absorb)
  with lastnot have neq: "bestImage t \<noteq> last (generated t)" by metis
  show "objId (bestImage t) \<noteq> objId (last (generated t))"
    using neq loopInv_bestImage_generated [OF inv] cur by (auto dest: inj_onD)
  show "currentImage t = last (generated t)" by (rule cur)
  show "(\<forall>x \<in> set (map snd (critiqued t)). x \<le> 0) \<longrightarrow> bestImage t = hd (generated t)"
  proof
    assume "\<forall>x \<in> set (map snd (critiqued t)). x \<le> 0"
    then have "track (hd (generated t), 0) (critiqued t) = (hd (generated t), 0)"
      by (intro track_none_greater) simp
    with best show "bestImage t = hd (generated t)" by simp
  qed
qed

lemma tagged_40_60_60_eval:
  "executeGenerationLoop novaBrief (taggedProviders [40, 60, 60]) None None freshApp
     = Inr tagged_40_60_60"
  by (simp add: run_defs taggedProviders_def tagged_40_60_60_def tagged_def eval_nat_numeral)

section \<open>Properties of the refinement loop\<close>

text \<open>
  C1. In every run in which no adapter threw, if any critique score the loop received
  is at least \<open>QUALITY_THRESHOLD\<close> (85, inclusive), the run ends satisfied and goes on to
  the video; the loop stopped at the first iteration \<open>k\<close> whose score reached the
  threshold: that critique is the last one, every earlier score is below the threshold,
  and the image it judged is the last one generated (\<open>k + 1\<close> images for \<open>k + 1\<close>
  critiques, so no generator call came after it). The scores received are the critic's
  replies, in order.
\<close>

theorem threshold_reached_stops_loop:
  assumes "executeGenerationLoop formData env initialPrompt initialFeedback app = Inr s"
      and "\<exists>x \<in> set (map snd (critiqued s)). QUALITY_THRESHOLD \<le> x"
  shows "QUALITY_THRESHOLD = 85 \<and> isSatisfied s \<and> step (ui s) = GENERATING_VIDEO \<and>
         (\<exists>k. length (critiqued s) = Suc k \<and>
              QUALITY_THRESHOLD \<le> snd (critiqued s ! k) \<and>
              (\<forall>j < k. snd (critiqued s ! j) < QUALITY_THRESHOLD) \<and>
              length (generated s) = Suc k \<and> loops s = k \<and>
              fst (critiqued s ! k) = last (generated s)) \<and>
         (\<forall>j < length (critiqued s).
            \<exists>c. critiqueReply env j = Inr (Some c) \<and> score c = snd (critiqued s ! j))"
proof -
  from run_Inr [OF assms(1)] obtain s0 t where
    s: "s = finish (restoreBest t)" and inv: "loopInv env (allocated app) t"
    and stop: "\<not> loopGuard t"
    by blast
  note ff = final_fields [OF inv, folded s]
  from inv have low: "\<forall>j < loops t. snd (critiqued t ! j) < QUALITY_THRESHOLD"
    and len: "length (generated t) = Suc (loops t)"
    and cimg: "map fst (critiqued t) = take (length (critiqued t)) (generated t)"
    and link: "\<forall>j < length (critiqued t).
            \<exists>c. critiqueReply env j = Inr (Some c) \<and> score c = snd (critiqued t ! j)"
    by (simp_all add: loopInv_def)
  from assms(2) obtain i where i: "i < length (critiqued t)"
    and hi: "QUALITY_THRESHOLD \<le> snd (critiqued t ! i)"
    unfolding ff by (auto simp: in_set_conv_nth)
  from loop_end_cases [OF inv stop] have sat: "isSatisfied t"
    and clen: "length (critiqued t) = Suc (loops t)"
    and top: "QUALITY_THRESHOLD \<le> snd (critiqued t ! loops t)"
    using i hi low by (auto simp: not_le [symmetric])
  have "fst (critiqued t ! loops t) = map fst (critiqued t) ! loops t"
    using clen by simp
  also have "\<dots> = generated t ! loops t"
    unfolding cimg using clen len by simp
  also have "\<dots> = last (generated t)"
    using len by (metis diff_Suc_1 last_conv_nth length_0_conv nat.distinct(1))
  finally have img: "fst (critiqued t ! loops t) = last (generated t)" .
  have "\<exists>k. length (critiqued t) = Suc k \<and>
              QUALITY_THRESHOLD \<le> snd (critiqued t ! k) \<and>
              (\<forall>j < k. snd (critiqued t ! j) < QUALITY_THRESHOLD) \<and>
              length (generated t) = Suc k \<and> loops t = k \<and>
              fst (critiqued t ! k) = last (generated t)"
    using clen top low len img by blast
  with sat link show ?thesis
    unfolding ff by (simp add: QUALITY_THRESHOLD_def)
qed

theorem threshold_reached_stops_loop_witness:
  "executeGenerationLoop novaBrief (scriptedProviders [60, 72, 85]) None None freshApp
     = Inr run_60_72_85 \<and>
   (\<exists>x \<in> set (map snd (critiqued run_60_72_85)). QUALITY_THRESHOLD \<le> x) \<and>
   isSatisfied run_60_72_85 \<and> step (ui run_60_72_85) = GENERATING_VIDEO \<and>
   map snd (critiqued run_60_72_85) = [60, 72, 85] \<and> length (generated run_60_72_85) = 3"
proof -
  have reached: "\<exists>x \<in> set (map snd (critiqued run_60_72_85)). QUALITY_THRESHOLD \<le> x"
    by (simp add: run_60_72_85_def QUALITY_THRESHOLD_def)
  from threshold_reached_stops_loop [OF run_60_72_85_eval reached]
  have "isSatisfied run_60_72_85 \<and> step (ui run_60_72_85) = GENERATING_VIDEO"
    by blast
  moreover have "map snd (critiqued run_60_72_85) = [60, 72, 85]"
    "length (generated run_60_72_85) = 3"
    by (simp_all add: run_60_72_85_def)
  ultimately show ?thesis
    using run_60_72_85_eval reached by blast
qed





text \<open>
  C4, as the code has it. When the critic's first two replies carry the scores 80 and
  95 (whatever a third reply, 70 or other, would be) and no adapter throws, the loop
  stops satisfied after the second critique: the scores received are 80 and 95, two
  images were generated and no third one, the best and final image is the second one,
  it is the image handed to the video generation, and the reconciliation step finds the
  current image to be the best one and changes nothing.
\<close>

theorem scores_80_95_stop_at_second_image:
  assumes "executeGenerationLoop formData env initialPrompt initialFeedback app = Inr s"
      and "critiqueReply env 0 = Inr (Some c0)" and "score c0 = 80"
      and "critiqueReply env 1 = Inr (Some c1)" and "score c1 = 95"
  shows "map snd (critiqued s) = [80, 95] \<and> length (generated s) = 2 \<and>
         map fst (critiqued s) = generated s \<and> isSatisfied s \<and> bestScore s = 95 \<and>
         bestImage s = generated s ! 1 \<and> currentImage s = generated s ! 1 \<and>
         generatedImage (ui s) = Some (generated s ! 1) \<and>
         videoSource (ui s) = Some (generated s ! 1) \<and> step (ui s) = GENERATING_VIDEO \<and>
         (\<exists>s0 t. loopStart formData env initialPrompt initialFeedback app = Inr s0 \<and>
                 scoringLoop formData env s0 = Inr t \<and> restoreBest t = t \<and> s = finish t)"
proof -
  from run_Inr [OF assms(1)] obtain s0 t where
    start: "loopStart formData env initialPrompt initialFeedback app = Inr s0" and
    loop: "scoringLoop formData env s0 = Inr t" and
    s: "s = finish (restoreBest t)" and inv: "loopInv env (allocated app) t"
    and stop: "\<not> loopGuard t"
    by blast
  note ff = final_fields [OF inv, folded s]
  from inv have low: "\<forall>j < loops t. snd (critiqued t ! j) < QUALITY_THRESHOLD"
    and len: "length (generated t) = Suc (loops t)"
    and cur: "currentImage t = last (generated t)"
    and cimg: "map fst (critiqued t) = take (length (critiqued t)) (generated t)"
    and best: "(bestImage t, bestScore t) = track (hd (generated t), 0) (critiqued t)"
    and link: "\<forall>j < length (critiqued t).
            \<exists>c. critiqueReply env j = Inr (Some c) \<and> score c = snd (critiqued t ! j)"
    by (simp_all add: loopInv_def)
  have sc0: "0 < length (critiqued t) \<Longrightarrow> snd (critiqued t ! 0) = 80"
    using link assms(2,3) by auto
  have sc1: "1 < length (critiqued t) \<Longrightarrow> snd (critiqued t ! 1) = 95"
    using link assms(4,5) by auto
  from loop_end_cases [OF inv stop] have sat: "isSatisfied t" and l1: "loops t = 1"
  proof -
    show "isSatisfied t"
    proof (rule ccontr)
      assume "\<not> isSatisfied t"
      with loop_end_cases [OF inv stop] have "loops t = 3" "length (critiqued t) = 3"
        by (simp_all add: MAX_REFINEMENT_LOOPS_def)
      then have "(1::nat) < loops t" "(1::nat) < length (critiqued t)" by simp_all
      with low sc1 have "snd (critiqued t ! 1) < QUALITY_THRESHOLD" "snd (critiqued t ! 1) = 95"
        by blast+
      then show False by (simp add: QUALITY_THRESHOLD_def)
    qed
    with loop_end_cases [OF inv stop] have clen: "length (critiqued t) = Suc (loops t)"
      and top: "QUALITY_THRESHOLD \<le> snd (critiqued t ! loops t)"
      by simp_all
    have "loops t \<noteq> 0"
    proof
      assume "loops t = 0"
      with top sc0 clen have "QUALITY_THRESHOLD \<le> 80" by simp
      then show False by (simp add: QUALITY_THRESHOLD_def)
    qed
    moreover have "\<not> 1 < loops t"
    proof
      assume "1 < loops t"
      with clen have "(1::nat) < loops t" "(1::nat) < length (critiqued t)" by simp_all
      with low sc1 have "snd (critiqued t ! 1) < QUALITY_THRESHOLD"
        "snd (critiqued t ! 1) = 95"
        by blast+
      then show False by (simp add: QUALITY_THRESHOLD_def)
    qed
    ultimately show "loops t = 1" by simp
  qed
  with loop_end_cases [OF inv stop] have clen: "length (critiqued t) = 2" by simp
  from len l1 have glen: "length (generated t) = 2" by simp
  from clen obtain x0 x1 where crit: "critiqued t = [x0, x1]"
    by (auto simp: numeral_2_eq_2 length_Suc_conv)
  from glen obtain g0 g1 where gen: "generated t = [g0, g1]"
    by (auto simp: numeral_2_eq_2 length_Suc_conv)
  from cimg crit gen have f: "fst x0 = g0" "fst x1 = g1" by simp_all
  from sc0 sc1 crit have sn: "snd x0 = 80" "snd x1 = 95" by simp_all
  from best crit gen f sn have b: "bestImage t = g1" "bestScore t = 95"
    by (simp_all add: prod_eq_iff)
  from cur gen have c: "currentImage t = g1" by simp
  from b c have noop: "restoreBest t = t" by (simp add: restoreBest_def)
  from start loop noop s
  have "\<exists>s0 t. loopStart formData env initialPrompt initialFeedback app = Inr s0 \<and>
                 scoringLoop formData env s0 = Inr t \<and> restoreBest t = t \<and> s = finish t"
    by auto
  then show ?thesis
    unfolding ff using crit gen f sn b sat ff(11) [OF sat] by simp
qed

theorem scores_80_95_stop_at_second_image_witness:
  "executeGenerationLoop novaBrief (scriptedProviders [80, 95, 70]) None None freshApp
     = Inr run_80_95_70 \<and>
   critiqueReply (scriptedProviders [80, 95, 70]) 0 = Inr (Some (scriptedCritique 80)) \<and>
   score (scriptedCritique 80) = 80 \<and>
   critiqueReply (scriptedProviders [80, 95, 70]) 1 = Inr (Some (scriptedCritique 95)) \<and>
   score (scriptedCritique 95) = 95 \<and>
   map snd (critiqued run_80_95_70) = [80, 95] \<and> length (generated run_80_95_70) = 2 \<and>
   videoSource (ui run_80_95_70) = Some (generated run_80_95_70 ! 1)"
proof -
  have r0: "critiqueReply (scriptedProviders [80, 95, 70]) 0 = Inr (Some (scriptedCritique 80))"
    and r1: "critiqueReply (scriptedProviders [80, 95, 70]) 1 = Inr (Some (scriptedCritique 95))"
    by (simp_all add: scriptedProviders_def scriptedCritic_def)
  have s0: "score (scriptedCritique 80) = 80" and s1: "score (scriptedCritique 95) = 95"
    by (simp_all add: scriptedCritique_def)
  from scores_80_95_stop_at_second_image [OF run_80_95_70_eval r0 s0 r1 s1]
  have "map snd (critiqued run_80_95_70) = [80, 95] \<and> length (generated run_80_95_70) = 2 \<and>
        videoSource (ui run_80_95_70) = Some (generated run_80_95_70 ! 1)"
    by blast
  with run_80_95_70_eval r0 r1 s0 s1 show ?thesis by blast
qed

text \<open>
  The scenario of C4 as the claim states it does not happen: with the scores 80, 95, 70
  the run generates two images, not three, and receives two scores; the third score is
  never asked for.
\<close>

theorem scores_80_95_70_counterexample:
  "executeGenerationLoop novaBrief (scriptedProviders [80, 95, 70]) None None freshApp
     = Inr run_80_95_70 \<and>
   generated run_80_95_70 = [img 0, img 1] \<and>
   length (generated run_80_95_70) \<noteq> 3 \<and>
   critiqued run_80_95_70 = [(img 0, 80), (img 1, 95)]"
  using run_80_95_70_eval by (simp add: run_80_95_70_def)



text \<open>
  C6. From the start of the loop, after any number \<open>n\<close> of iterations that the loop
  makes: the counter \<open>loops\<close> (and the displayed \<open>loopCount\<close>) is at most
  \<open>MAX_REFINEMENT_LOOPS\<close> = 3; it counts the refine-and-regenerate cycles made (one call
  of \<^verbatim>\<open>refinePrompt\<close> and one new image each); \<open>n\<close> itself is at most 3; and a further
  iteration is made only from a state whose counter is strictly below the maximum and
  whose satisfied flag is unset. The state in which the loop ends is one of these.
\<close>

theorem loop_counter_bounded:
  assumes "loopStart formData env initialPrompt initialFeedback app = Inr s0"
      and "afterIterations formData env n s0 = Some u"
  shows "MAX_REFINEMENT_LOOPS = 3 \<and> loops u \<le> MAX_REFINEMENT_LOOPS \<and>
         loopCount (ui u) = loops u \<and> n \<le> MAX_REFINEMENT_LOOPS \<and>
         length (generated u) = Suc (loops u) \<and>
         refineCalls u = refineCalls s0 + loops u \<and>
         (\<forall>m u'. afterIterations formData env (Suc m) u = Some u' \<longrightarrow>
                 loops u < MAX_REFINEMENT_LOOPS \<and> \<not> isSatisfied u) \<and>
         (\<forall>t. scoringLoop formData env s0 = Inr t \<longrightarrow>
              (\<exists>k. afterIterations formData env k s0 = Some t))"
proof -
  from loopStart_Inr [OF assms(1)] have inv0: "loopInv env (allocated app) s0"
    and z: "loops s0 = 0" "critiqued s0 = []"
    by simp_all
  from afterIterations_inv [OF assms(2) inv0] have inv: "loopInv env (allocated app) u" .
  from afterIterations_counts [OF assms(2)] z have n: "n = length (critiqued u)"
    and rc: "refineCalls u = refineCalls s0 + loops u"
    by simp_all
  from inv have "length (critiqued u) \<le> MAX_REFINEMENT_LOOPS"
    by (auto simp: loopInv_def split: if_splits)
  with n have "n \<le> MAX_REFINEMENT_LOOPS" by simp
  moreover have "\<forall>m u'. afterIterations formData env (Suc m) u = Some u' \<longrightarrow>
                 loops u < MAX_REFINEMENT_LOOPS \<and> \<not> isSatisfied u"
    by (auto simp: loopGuard_def split: if_splits)
  moreover have "\<forall>t. scoringLoop formData env s0 = Inr t \<longrightarrow>
              (\<exists>k. afterIterations formData env k s0 = Some t)"
    using scoringLoop_afterIterations by blast
  ultimately show ?thesis
    using inv rc by (simp add: loopInv_def MAX_REFINEMENT_LOOPS_def)
qed

theorem loop_counter_bounded_witness:
  "loopStart novaBrief (scriptedProviders [40, 60, 60]) None None freshApp
     = Inr loopStart_40_60_60 \<and>
   afterIterations novaBrief (scriptedProviders [40, 60, 60]) 3 loopStart_40_60_60
     = Some loopEnd_40_60_60 \<and>
   loops loopEnd_40_60_60 \<le> MAX_REFINEMENT_LOOPS \<and> loops loopEnd_40_60_60 = 3 \<and>
   length (generated loopEnd_40_60_60) = 4"
proof -
  from loop_counter_bounded [OF loopStart_40_60_60_eval loopEnd_40_60_60_eval]
  have "loops loopEnd_40_60_60 \<le> MAX_REFINEMENT_LOOPS"
    by blast
  moreover have "loops loopEnd_40_60_60 = 3" "length (generated loopEnd_40_60_60) = 4"
    by (simp_all add: loopEnd_40_60_60_def)
  ultimately show ?thesis
    using loopStart_40_60_60_eval loopEnd_40_60_60_eval by blast
qed

section \<open>Properties of the retried video generation\<close>

lemma pollOperation_effects:
  "set (snd (pollOperation operation replies)) \<subseteq> {Delay 5000}"
proof (induction operation replies rule: pollOperation.induct)
  case (1 operation replies)
  show ?case
  proof (cases "op_done operation")
    case True
    then show ?thesis by simp
  next
    case False
    note nd = this
    show ?thesis
    proof (cases replies)
      case Nil
      with nd show ?thesis by simp
    next
      case (Cons r rest)
      show ?thesis
      proof (cases r)
        case (Inl err)
        with nd Cons show ?thesis by simp
      next
        case (Inr operation')
        show ?thesis
        proof (cases "op_state operation' = Some ''FAILED''")
          case True
          with nd Cons Inr show ?thesis by simp
        next
          case False
          from "1.IH" [OF nd Cons Inr False]
          have "set (snd (pollOperation operation' rest)) \<subseteq> {Delay 5000}" .
          with nd Cons Inr False show ?thesis
            by (simp add: split_beta)
        qed
      qed
    qed
  qed
qed

lemma videoAttempt_effects:
  assumes "videoAttempt script = (res, effects)"
  shows "set effects \<subseteq> {Delay 5000}"
proof (cases "started script")
  case (Inl err)
  with assms show ?thesis by (simp add: videoAttempt_def)
next
  case (Inr operation)
  have "effects = snd (pollOperation operation (polled script))"
    using assms Inr
    by (auto simp: videoAttempt_def split: prod.splits option.splits sum.splits if_splits)
  then show ?thesis
    using pollOperation_effects [of operation "polled script"] by simp
qed

lemma no_backoff_in_attempt:
  assumes "videoAttempt script = (res, effects)"
  shows "count_list effects (Delay 4000) = 0"
  using videoAttempt_effects [OF assms] by (auto simp: count_list_0_iff)

lemma retryFrom_success:
  assumes "attempt \<le> MAX_RETRIES"
      and "videoAttempt (script attempt) = (Some (Inr link), fx)"
  shows "retryFrom script attempt lastError = (Some (Inr link), AttemptLog attempt # fx)"
  using assms by (subst retryFrom.simps) simp

lemma retryFrom_give_up:
  assumes "attempt \<le> MAX_RETRIES"
      and "videoAttempt (script attempt) = (Some (Inl e), fx)"
      and "\<not> (attempt < MAX_RETRIES \<and> isInternalError e)"
  shows "retryFrom script attempt lastError = (Some (Inl e), AttemptLog attempt # fx)"
  using assms by (subst retryFrom.simps) (auto simp: throwLast_def)

lemma retryFrom_retry:
  assumes "attempt < MAX_RETRIES"
      and "videoAttempt (script attempt) = (Some (Inl e), fx)"
      and "isInternalError e"
      and "following = Suc attempt"
      and "retryFrom script following (Some e) = (res, later)"
  shows "retryFrom script attempt lastError =
           (res, AttemptLog attempt # fx @ [Delay 4000] @ later)"
  using assms by (subst retryFrom.simps) simp

text \<open>
  C7. (1) When attempts 1 and 2 throw errors classified as internal/server and attempt 3
  yields a link, the function returns that link; its effects are the three attempts
  with one \<^verbatim>\<open>delay(4000)\<close> after each of the first two, so exactly two delays of 4000 ms
  (the delays inside an attempt are the 5000 ms of its own polling). (2) When attempt 1
  throws an error that is not so classified, the function throws that error after this
  one attempt, with no delay of 4000 ms. (3) When attempts 1 and 2 throw internal/server
  errors and attempt 3 throws, the function throws the error of attempt 3.
\<close>

theorem retry_policy_outcomes:
  "(\<forall>script e1 fx1 e2 fx2 link fx3.
      videoAttempt (script 1) = (Some (Inl e1), fx1) \<and> isInternalError e1 \<and>
      videoAttempt (script 2) = (Some (Inl e2), fx2) \<and> isInternalError e2 \<and>
      videoAttempt (script 3) = (Some (Inr link), fx3) \<longrightarrow>
      generateAvatarVideo referenceImage characterName backgroundMode scenario script =
        (Some (Inr link),
         AttemptLog 1 # fx1 @ [Delay 4000] @ AttemptLog 2 # fx2 @ [Delay 4000] @
         AttemptLog 3 # fx3) \<and>
      count_list (snd (generateAvatarVideo referenceImage characterName backgroundMode
                         scenario script)) (Delay 4000) = 2) \<and>
   (\<forall>script e fx.
      videoAttempt (script 1) = (Some (Inl e), fx) \<and> \<not> isInternalError e \<longrightarrow>
      generateAvatarVideo referenceImage characterName backgroundMode scenario script =
        (Some (Inl e), AttemptLog 1 # fx) \<and>
      count_list (snd (generateAvatarVideo referenceImage characterName backgroundMode
                         scenario script)) (Delay 4000) = 0) \<and>
   (\<forall>script e1 fx1 e2 fx2 e3 fx3.
      videoAttempt (script 1) = (Some (Inl e1), fx1) \<and> isInternalError e1 \<and>
      videoAttempt (script 2) = (Some (Inl e2), fx2) \<and> isInternalError e2 \<and>
      videoAttempt (script 3) = (Some (Inl e3), fx3) \<longrightarrow>
      generateAvatarVideo referenceImage characterName backgroundMode scenario script =
        (Some (Inl e3),
         AttemptLog 1 # fx1 @ [Delay 4000] @ AttemptLog 2 # fx2 @ [Delay 4000] @
         AttemptLog 3 # fx3))"
proof (intro conjI allI impI)
  fix script :: "nat \<Rightarrow> AttemptScript" and e1 fx1 e2 fx2 link fx3
  assume a: "videoAttempt (script 1) = (Some (Inl e1), fx1) \<and> isInternalError e1 \<and>
      videoAttempt (script 2) = (Some (Inl e2), fx2) \<and> isInternalError e2 \<and>
      videoAttempt (script 3) = (Some (Inr link), fx3)"
  then have a1: "videoAttempt (script 1) = (Some (Inl e1), fx1)" "isInternalError e1"
    and a2: "videoAttempt (script 2) = (Some (Inl e2), fx2)" "isInternalError e2"
    and a3: "videoAttempt (script 3) = (Some (Inr link), fx3)"
    by blast+
  have third: "retryFrom script 3 (Some e2) = (Some (Inr link), AttemptLog 3 # fx3)"
    by (rule retryFrom_success [where script = script and attempt = 3, OF _ a3]) (simp add: MAX_RETRIES_def)
  have second: "retryFrom script 2 (Some e1) =
      (Some (Inr link), AttemptLog 2 # fx2 @ [Delay 4000] @ AttemptLog 3 # fx3)"
    by (rule retryFrom_retry [where script = script and attempt = 2, OF _ a2 _ third]) (simp_all add: MAX_RETRIES_def)
  have first: "retryFrom script 1 None =
      (Some (Inr link), AttemptLog 1 # fx1 @ [Delay 4000] @
         AttemptLog 2 # fx2 @ [Delay 4000] @ AttemptLog 3 # fx3)"
    by (rule retryFrom_retry [where script = script and attempt = 1, OF _ a1 _ second]) (simp_all add: MAX_RETRIES_def)
  then show run: "generateAvatarVideo referenceImage characterName backgroundMode scenario script =
        (Some (Inr link),
         AttemptLog 1 # fx1 @ [Delay 4000] @ AttemptLog 2 # fx2 @ [Delay 4000] @
         AttemptLog 3 # fx3)"
    by (simp add: generateAvatarVideo_def)
  have "count_list fx1 (Delay 4000) = 0" "count_list fx2 (Delay 4000) = 0"
    "count_list fx3 (Delay 4000) = 0"
    using no_backoff_in_attempt [where script = "script 1", OF a1(1)]
      no_backoff_in_attempt [where script = "script 2", OF a2(1)]
      no_backoff_in_attempt [where script = "script 3", OF a3]
    by simp_all
  with run show "count_list (snd (generateAvatarVideo referenceImage characterName
      backgroundMode scenario script)) (Delay 4000) = 2"
    by simp
next
  fix script :: "nat \<Rightarrow> AttemptScript" and e fx
  assume a: "videoAttempt (script 1) = (Some (Inl e), fx) \<and> \<not> isInternalError e"
  then have a1: "videoAttempt (script 1) = (Some (Inl e), fx)" and perm: "\<not> isInternalError e"
    by blast+
  have "retryFrom script 1 None = (Some (Inl e), AttemptLog 1 # fx)"
    by (rule retryFrom_give_up [where script = script and attempt = 1, OF _ a1]) (simp_all add: MAX_RETRIES_def perm)
  then show run: "generateAvatarVideo referenceImage characterName backgroundMode scenario script =
        (Some (Inl e), AttemptLog 1 # fx)"
    by (simp add: generateAvatarVideo_def)
  have "count_list fx (Delay 4000) = 0"
    using no_backoff_in_attempt [where script = "script 1", OF a1] .
  with run show "count_list (snd (generateAvatarVideo referenceImage characterName
      backgroundMode scenario script)) (Delay 4000) = 0"
    by simp
next
  fix script :: "nat \<Rightarrow> AttemptScript" and e1 fx1 e2 fx2 e3 fx3
  assume a: "videoAttempt (script 1) = (Some (Inl e1), fx1) \<and> isInternalError e1 \<and>
      videoAttempt (script 2) = (Some (Inl e2), fx2) \<and> isInternalError e2 \<and>
      videoAttempt (script 3) = (Some (Inl e3), fx3)"
  then have a1: "videoAttempt (script 1) = (Some (Inl e1), fx1)" "isInternalError e1"
    and a2: "videoAttempt (script 2) = (Some (Inl e2), fx2)" "isInternalError e2"
    and a3: "videoAttempt (script 3) = (Some (Inl e3), fx3)"
    by blast+
  have third: "retryFrom script 3 (Some e2) = (Some (Inl e3), AttemptLog 3 # fx3)"
    by (rule retryFrom_give_up [where script = script and attempt = 3, OF _ a3]) (simp_all add: MAX_RETRIES_def)
  have second: "retryFrom script 2 (Some e1) =
      (Some (Inl e3), AttemptLog 2 # fx2 @ [Delay 4000] @ AttemptLog 3 # fx3)"
    by (rule retryFrom_retry [where script = script and attempt = 2, OF _ a2 _ third]) (simp_all add: MAX_RETRIES_def)
  have first: "retryFrom script 1 None =
      (Some (Inl e3), AttemptLog 1 # fx1 @ [Delay 4000] @
         AttemptLog 2 # fx2 @ [Delay 4000] @ AttemptLog 3 # fx3)"
    by (rule retryFrom_retry [where script = script and attempt = 1, OF _ a1 _ second]) (simp_all add: MAX_RETRIES_def)
  then show "generateAvatarVideo referenceImage characterName backgroundMode scenario script =
        (Some (Inl e3),
         AttemptLog 1 # fx1 @ [Delay 4000] @ AttemptLog 2 # fx2 @ [Delay 4000] @
         AttemptLog 3 # fx3)"
    by (simp add: generateAvatarVideo_def)
qed

theorem retry_policy_outcomes_witness:
  "videoAttempt (flakyThenFine 1) = (Some (Inl (Some ''500 Internal error encountered'')), []) \<and>
   isInternalError (Some ''500 Internal error encountered'') \<and>
   videoAttempt (flakyThenFine 2) = (Some (Inl (Some ''The SERVER is overloaded'')), []) \<and>
   isInternalError (Some ''The SERVER is overloaded'') \<and>
   videoAttempt (flakyThenFine 3) = (Some (Inr ''https://video.example/clip''), [Delay 5000]) \<and>
   generateAvatarVideo png ''Nova'' STUDIO ''city'' flakyThenFine =
     (Some (Inr ''https://video.example/clip''),
      [AttemptLog 1, Delay 4000, AttemptLog 2, Delay 4000, AttemptLog 3, Delay 5000]) \<and>
   videoAttempt (alwaysUnsafe 1) = (Some (Inl (Some ''Prompt blocked by safety filter'')), []) \<and>
   \<not> isInternalError (Some ''Prompt blocked by safety filter'') \<and>
   generateAvatarVideo png ''Nova'' STUDIO ''city'' alwaysUnsafe =
     (Some (Inl (Some ''Prompt blocked by safety filter'')), [AttemptLog 1]) \<and>
   videoAttempt (alwaysInternal 3) = (Some (Inl (Some ''internal error, third time'')), []) \<and>
   generateAvatarVideo png ''Nova'' STUDIO ''city'' alwaysInternal =
     (Some (Inl (Some ''internal error, third time'')),
      [AttemptLog 1, Delay 4000, AttemptLog 2, Delay 4000, AttemptLog 3])"
proof -
  have f1: "videoAttempt (flakyThenFine 1) = (Some (Inl (Some ''500 Internal error encountered'')), [])"
    and f2: "videoAttempt (flakyThenFine 2) = (Some (Inl (Some ''The SERVER is overloaded'')), [])"
    and f3: "videoAttempt (flakyThenFine 3) = (Some (Inr ''https://video.example/clip''), [Delay 5000])"
    and u1: "videoAttempt (alwaysUnsafe 1) = (Some (Inl (Some ''Prompt blocked by safety filter'')), [])"
    and i1: "videoAttempt (alwaysInternal 1) = (Some (Inl (Some ''internal error'')), [])"
    and i2: "videoAttempt (alwaysInternal 2) = (Some (Inl (Some ''internal error'')), [])"
    and i3: "videoAttempt (alwaysInternal 3) = (Some (Inl (Some ''internal error, third time'')), [])"
    by (simp_all add: videoAttempt_def flakyThenFine_def alwaysUnsafe_def alwaysInternal_def
          throwingAttempt_def succeedingAttempt_def)
  have c1: "isInternalError (Some ''500 Internal error encountered'')"
    by code_simp
  have c2: "isInternalError (Some ''The SERVER is overloaded'')"
    by code_simp
  have c3: "\<not> isInternalError (Some ''Prompt blocked by safety filter'')"
    by code_simp
  have c4: "isInternalError (Some ''internal error'')"
    by code_simp
  note parts = retry_policy_outcomes [of png "''Nova''" STUDIO "''city''"]
  from parts [THEN conjunct1, rule_format, of flakyThenFine] f1 f2 f3 c1 c2
  have r1: "generateAvatarVideo png ''Nova'' STUDIO ''city'' flakyThenFine =
     (Some (Inr ''https://video.example/clip''),
      [AttemptLog 1, Delay 4000, AttemptLog 2, Delay 4000, AttemptLog 3, Delay 5000])"
    by simp
  from parts [THEN conjunct2, THEN conjunct1, rule_format, of alwaysUnsafe] u1 c3
  have r2: "generateAvatarVideo png ''Nova'' STUDIO ''city'' alwaysUnsafe =
     (Some (Inl (Some ''Prompt blocked by safety filter'')), [AttemptLog 1])"
    by simp
  from parts [THEN conjunct2, THEN conjunct2, rule_format, of alwaysInternal] i1 i2 i3 c4
  have r3: "generateAvatarVideo png ''Nova'' STUDIO ''city'' alwaysInternal =
     (Some (Inl (Some ''internal error, third time'')),
      [AttemptLog 1, Delay 4000, AttemptLog 2, Delay 4000, AttemptLog 3])"
    by simp
  from f1 f2 f3 u1 i3 c1 c2 c3 r1 r2 r3 show ?thesis by blast
qed

section \<open>Properties of the task poller\<close>









section \<open>Properties of the adapters\<close>

lemma optimizePrompt_blank_text:
  "(case response_text response of None \<Rightarrow> True | Some t \<Rightarrow> trim t = []) \<Longrightarrow>
   optimizePrompt name description style scenario backgroundMode userImageBase64 (Inr response)
     = Inr []"
  by (auto simp add: optimizePrompt_def split: option.splits)

lemma trim_white_space_only:
  "trim [160] = []" "trim [32, 9, 10, 8232, 65279, 12288, 8195] = []"
  by (simp_all add: trim_def isWhiteSpace_def)

text \<open>
  C9. The claim is that \<^verbatim>\<open>optimizePrompt\<close> fails with a no-content error when the provider
  returns empty text. The code does not: for a response whose text is empty, and for one
  without text, it returns the empty string as the prompt, where its sibling
  \<^verbatim>\<open>critiqueGeneratedImage\<close> throws on the same condition.
\<close>

theorem optimizePrompt_empty_text_is_returned:
  "optimizePrompt ''Nova'' ''a hacker with neon hair'' ''anime'' ''city'' STUDIO None
     (Inr \<lparr> response_text = Some [] \<rparr>) = Inr [] \<and>
   optimizePrompt ''Nova'' ''a hacker with neon hair'' ''anime'' ''city'' STUDIO None
     (Inr \<lparr> response_text = None \<rparr>) = Inr [] \<and>
   critiqueGeneratedImage ''a hacker with neon hair'' png (Inr None) = Inl ''No critique returned''"
  by (simp add: optimizePrompt_def trim_def critiqueGeneratedImage_def)

lemma generateAvatarImage_later_copy_square:
  "imageConfig (generateAvatarImage_request_later optimizedPrompt referenceImageBase64)
     = \<lparr> aspectRatio = ''1:1'', imageSize = ''2K'' \<rparr>"
  by (simp add: generateAvatarImage_request_later_def)

text \<open>
  C10. The claim is that every image request asks for a square aspect ratio and a
  high-resolution tier, fixed whatever the arguments. In \<^verbatim>\<open>services/geminiService.ts\<close> the
  configuration is fixed and the tier is \<^verbatim>\<open>2K\<close>, but the aspect ratio is \<^verbatim>\<open>16:9\<close>, not the
  \<^verbatim>\<open>1:1\<close> of the later copy and of the documentation.
\<close>

theorem generateAvatarImage_config_is_16_9:
  "imageConfig (generateAvatarImage_request optimizedPrompt referenceImageBase64)
     = \<lparr> aspectRatio = ''16:9'', imageSize = ''2K'' \<rparr> \<and>
   aspectRatio (imageConfig (generateAvatarImage_request optimizedPrompt referenceImageBase64))
     \<noteq> ''1:1''"
  by (simp add: generateAvatarImage_request_def)

end
